theory Spec2Isabelle
  imports Main
begin

section \<open>The breakpoint display controller of one text editor\<close>

text \<open>
  A shallow embedding of \<^verbatim>\<open>pkg/nuclide-debugger/lib/BreakpointDisplayController.js\<close>.
  The controller is a class whose methods mutate its fields, the editor's markers and the
  gutter, and call the breakpoint store and the debugger actions. Here every method is a
  function on a record of that state; the calls it makes to its collaborators are appended,
  in order, to a trace. Markers are objects with an identity: they live in a heap (a list,
  the identity being the index) and the controller's fields hold indices.
\<close>

subsection \<open>Data\<close>

type_synonym path = string

text \<open>A buffer position, \<^verbatim>\<open>{row, column}\<close>.\<close>

record position =
  row :: nat
  column :: nat

text \<open>
  The values of the \<^verbatim>\<open>invalidate\<close> option of \<^verbatim>\<open>markBufferPosition\<close>. The marker
  implementation belongs to the editor, not to this repository; the controller only chooses
  the option.
\<close>

datatype invalidate = Never | Surround | Overlap | Inside | Touch

text \<open>The class name of the \<^verbatim>\<open>span\<close> element that decorates a marker.\<close>

datatype icon = Shadow_breakpoint_icon | Breakpoint_icon

type_synonym marker_id = nat

record marker =
  startBufferPosition :: position
  invalidateOption :: invalidate
  isDestroyed :: bool
  decoration :: "icon option"
  onDidChangeBound :: bool

record gutter =
  name :: string
  visible :: bool
  priority :: int
  gutterDestroyed :: bool

text \<open>
  The breakpoint store is imported as a type only; its two queries are parameters.
  \<^verbatim>\<open>getBreakpointsForPath\<close> returns a map keyed by line, of which \<^verbatim>\<open>_update\<close> reads
  the keys in iteration order; \<^verbatim>\<open>getBreakpointLinesForPath\<close> returns a fresh mutable set
  of lines, given here by its elements.
\<close>

record breakpointStore =
  getBreakpointsForPath :: "path \<Rightarrow> nat list"
  getBreakpointLinesForPath :: "path \<Rightarrow> nat list"

record mouseEvent =
  targetClassList :: "string list"
  clientX :: int
  clientY :: int

text \<open>The event passed to a marker's \<^verbatim>\<open>onDidChange\<close> callback, as far as the handler reads it.\<close>

record markerChangeEvent =
  isValid :: bool
  oldHeadBufferPosition :: position
  newHeadBufferPosition :: position

text \<open>The calls the controller makes to its collaborators.\<close>

datatype effect =
    DisposablesDispose
  | MarkBufferPosition marker_id nat
  | DecorateMarker marker_id icon
  | MarkerOnDidChange marker_id
  | MarkerDestroy marker_id
  | GutterShow
  | GutterDestroy
  | StoreGetBreakpointsForPath path
  | StoreGetBreakpointLinesForPath path
  | DeleteBreakpoint path nat
  | AddBreakpoint path nat
  | ToggleBreakpoint path nat
  | DelegateHandleTextEditorDestroyed

text \<open>\<^verbatim>\<open>invariant(cond)\<close> of the \<^verbatim>\<open>assert\<close> module throws when the condition is false.\<close>

datatype error = InvariantViolation

text \<open>
  The controller's fields, together with the part of the editor they refer to:
  \<open>getPath\<close> is what \<^verbatim>\<open>this._editor.getPath()\<close> returns, \<open>heap\<close> holds the editor's
  markers, \<open>bufferPositionForMouseEvent\<close> is the imported coordinate-to-position service
  applied to this editor.
\<close>

record controller =
  getPath :: "path option"
  heap :: "marker list"
  bufferPositionForMouseEvent :: "mouseEvent \<Rightarrow> position"
  store :: breakpointStore
  gutter :: "gutter option"
  markers :: "marker_id list"
  lastShadowBreakpointMarker :: "marker_id option"
  trace :: "effect list"

subsection \<open>The collaborators' operations\<close>

definition emit :: "effect \<Rightarrow> controller \<Rightarrow> controller" where
  "emit e c = c\<lparr>trace := trace c @ [e]\<rparr>"

text \<open>\<^verbatim>\<open>marker.getStartBufferPosition().row\<close>\<close>

definition markerRow :: "controller \<Rightarrow> marker_id \<Rightarrow> nat" where
  "markerRow c m = row (startBufferPosition (heap c ! m))"

text \<open>\<^verbatim>\<open>marker.destroy()\<close>\<close>

definition markerDestroy :: "marker_id \<Rightarrow> controller \<Rightarrow> controller" where
  "markerDestroy m c =
     emit (MarkerDestroy m) (c\<lparr>heap := (heap c)[m := (heap c ! m)\<lparr>isDestroyed := True\<rparr>]\<rparr>)"

text \<open>
  \<^verbatim>\<open>this._editor.markBufferPosition([line, 0], {invalidate: 'never'})\<close>. The editor is
  not part of this repository; as the specification describes the buffer host's
  \<^verbatim>\<open>createMarker\<close>, the call returns a new marker object bound to the row it is created
  at. The new object's identity is the next free index of the heap.
\<close>

definition markBufferPosition :: "nat \<Rightarrow> invalidate \<Rightarrow> controller \<Rightarrow> marker_id \<times> controller" where
  "markBufferPosition line strategy c =
     (let m = length (heap c) in
      (m, emit (MarkBufferPosition m line)
            (c\<lparr>heap := heap c @
               [\<lparr>startBufferPosition = \<lparr>row = line, column = 0\<rparr>, invalidateOption = strategy,
                 isDestroyed = False, decoration = None, onDidChangeBound = False\<rparr>]\<rparr>)))"

text \<open>\<^verbatim>\<open>gutter.decorateMarker(marker, {item: elem})\<close>\<close>

definition decorateMarker :: "marker_id \<Rightarrow> icon \<Rightarrow> controller \<Rightarrow> controller" where
  "decorateMarker m elem c =
     emit (DecorateMarker m elem) (c\<lparr>heap := (heap c)[m := (heap c ! m)\<lparr>decoration := Some elem\<rparr>]\<rparr>)"

text \<open>\<^verbatim>\<open>marker.onDidChange(this._handleMarkerChange.bind(this))\<close>\<close>

definition markerOnDidChange :: "marker_id \<Rightarrow> controller \<Rightarrow> controller" where
  "markerOnDidChange m c =
     emit (MarkerOnDidChange m) (c\<lparr>heap := (heap c)[m := (heap c ! m)\<lparr>onDidChangeBound := True\<rparr>]\<rparr>)"

subsection \<open>The controller's methods\<close>

definition createBreakpointMarkerAtLine ::
    "nat \<Rightarrow> bool \<Rightarrow> controller \<Rightarrow> (error + marker_id) \<times> controller" where
  "createBreakpointMarkerAtLine line isShadow c =
     (let (marker, c1) = markBufferPosition line Never c;
          elem = (if isShadow then Shadow_breakpoint_icon else Breakpoint_icon)
      in case gutter c1 of
           None \<Rightarrow> (Inl InvariantViolation, c1)
         | Some g \<Rightarrow> (Inr marker, decorateMarker marker elem c1))"

text \<open>
  The first loop of \<^verbatim>\<open>_update\<close>, over \<^verbatim>\<open>this._markers\<close>, with the two locals it mutates:
  \<^verbatim>\<open>unhandledLines\<close> and \<^verbatim>\<open>markersToKeep\<close>.
\<close>

fun updateDestroyLoop ::
    "marker_id list \<Rightarrow> nat list \<Rightarrow> marker_id list \<Rightarrow> controller
      \<Rightarrow> nat list \<times> marker_id list \<times> controller" where
  "updateDestroyLoop [] unhandledLines markersToKeep c = (unhandledLines, markersToKeep, c)"
| "updateDestroyLoop (marker # rest) unhandledLines markersToKeep c =
     (let line = markerRow c marker in
      if line \<in> set unhandledLines
      then updateDestroyLoop rest (removeAll line unhandledLines) (markersToKeep @ [marker]) c
      else updateDestroyLoop rest unhandledLines markersToKeep (markerDestroy marker c))"

text \<open>
  The second loop, over the lines of \<^verbatim>\<open>breakpoints\<close>. An exception thrown by
  \<^verbatim>\<open>_createBreakpointMarkerAtLine\<close> leaves the loop and the method.
\<close>

fun updateCreateLoop ::
    "nat list \<Rightarrow> nat list \<Rightarrow> marker_id list \<Rightarrow> controller
      \<Rightarrow> (error + marker_id list) \<times> controller" where
  "updateCreateLoop [] unhandledLines markersToKeep c = (Inr markersToKeep, c)"
| "updateCreateLoop (line # rest) unhandledLines markersToKeep c =
     (if line \<notin> set unhandledLines
      then updateCreateLoop rest unhandledLines markersToKeep c
      else case createBreakpointMarkerAtLine line False c of
             (Inl e, c1) \<Rightarrow> (Inl e, c1)
           | (Inr marker, c1) \<Rightarrow>
               updateCreateLoop rest unhandledLines (markersToKeep @ [marker])
                 (markerOnDidChange marker c1))"

definition update :: "controller \<Rightarrow> (error + unit) \<times> controller" where
  "update c =
     (case gutter c of
        None \<Rightarrow> (Inr (), c)
      | Some g \<Rightarrow>
         (case getPath c of
            None \<Rightarrow> (Inr (), c)
          | Some path \<Rightarrow>
             (let breakpoints = getBreakpointsForPath (store c) path;
                  c1 = emit (StoreGetBreakpointsForPath path) c;
                  unhandledLines = getBreakpointLinesForPath (store c1) path;
                  c2 = emit (StoreGetBreakpointLinesForPath path) c1;
                  (unhandledLines', markersToKeep, c3) =
                     updateDestroyLoop (markers c2) unhandledLines [] c2
              in case updateCreateLoop breakpoints unhandledLines' markersToKeep c3 of
                   (Inl e, c4) \<Rightarrow> (Inl e, c4)
                 | (Inr markersToKeep', c4) \<Rightarrow>
                     (Inr (), (emit GutterShow c4)
                        \<lparr>gutter := Some (g\<lparr>visible := True\<rparr>), markers := markersToKeep'\<rparr>))))"

text \<open>
  \<^verbatim>\<open>if (!path) return;\<close> leaves when the path is null, undefined or the empty string.
\<close>

definition handleMarkerChange :: "markerChangeEvent \<Rightarrow> controller \<Rightarrow> controller" where
  "handleMarkerChange event c =
     (case getPath c of
        None \<Rightarrow> c
      | Some path \<Rightarrow>
          if path = [] then c
          else if \<not> isValid event
            then emit (DeleteBreakpoint path (row (newHeadBufferPosition event))) c
          else if row (oldHeadBufferPosition event) \<noteq> row (newHeadBufferPosition event)
            then emit (AddBreakpoint path (row (newHeadBufferPosition event)))
                   (emit (DeleteBreakpoint path (row (oldHeadBufferPosition event))) c)
          else c)"

definition handleBreakpointsChanged :: "path \<Rightarrow> controller \<Rightarrow> (error + unit) \<times> controller" where
  "handleBreakpointsChanged path c =
     (if Some path = getPath c then update c else (Inr (), c))"

definition getCurrentMouseEventLine :: "mouseEvent \<Rightarrow> controller \<Rightarrow> nat" where
  "getCurrentMouseEventLine event c = row (bufferPositionForMouseEvent c event)"

definition handleGutterClick :: "mouseEvent \<Rightarrow> controller \<Rightarrow> controller" where
  "handleGutterClick event c =
     (if ''icon-right'' \<in> set (targetClassList event) then c
      else case getPath c of
             None \<Rightarrow> c
           | Some path \<Rightarrow>
               if path = [] then c
               else emit (ToggleBreakpoint path (getCurrentMouseEventLine event c)) c)"

definition isLineOverLastShadowBreakpoint :: "nat \<Rightarrow> controller \<Rightarrow> bool" where
  "isLineOverLastShadowBreakpoint curLine c =
     (case lastShadowBreakpointMarker c of
        None \<Rightarrow> False
      | Some shadowBreakpointMarker \<Rightarrow> markerRow c shadowBreakpointMarker = curLine)"

definition removeLastShadowBreakpoint :: "controller \<Rightarrow> controller" where
  "removeLastShadowBreakpoint c =
     (case lastShadowBreakpointMarker c of
        None \<Rightarrow> c
      | Some m \<Rightarrow> (markerDestroy m c)\<lparr>lastShadowBreakpointMarker := None\<rparr>)"

definition createShadowBreakpointAtLine :: "nat \<Rightarrow> controller \<Rightarrow> (error + unit) \<times> controller" where
  "createShadowBreakpointAtLine line c =
     (case createBreakpointMarkerAtLine line True c of
        (Inl e, c1) \<Rightarrow> (Inl e, c1)
      | (Inr marker, c1) \<Rightarrow> (Inr (), c1\<lparr>lastShadowBreakpointMarker := Some marker\<rparr>))"

definition handleGutterMouseMove :: "mouseEvent \<Rightarrow> controller \<Rightarrow> (error + unit) \<times> controller" where
  "handleGutterMouseMove event c =
     (let curLine = getCurrentMouseEventLine event c in
      if isLineOverLastShadowBreakpoint curLine c then (Inr (), c)
      else createShadowBreakpointAtLine curLine (removeLastShadowBreakpoint c))"

definition handleGutterMouseLeave :: "mouseEvent \<Rightarrow> controller \<Rightarrow> controller" where
  "handleGutterMouseLeave event c = removeLastShadowBreakpoint c"

definition dispose :: "controller \<Rightarrow> controller" where
  "dispose c =
     (let c1 = emit DisposablesDispose c;
          c2 = fold markerDestroy (markers c1) c1
      in case gutter c2 of
           None \<Rightarrow> c2
         | Some g \<Rightarrow> emit GutterDestroy (c2\<lparr>gutter := Some (g\<lparr>gutterDestroyed := True\<rparr>)\<rparr>))"

definition handleTextEditorDestroyed :: "controller \<Rightarrow> controller" where
  "handleTextEditorDestroyed c = emit DelegateHandleTextEditorDestroyed (c\<lparr>gutter := None\<rparr>)"

definition handleGutterDestroyed :: "controller \<Rightarrow> controller" where
  "handleGutterDestroyed c = c\<lparr>gutter := None\<rparr>"

text \<open>
  The constructor: it adds the gutter, subscribes to the gutter, the editor and the store,
  and runs \<^verbatim>\<open>_update\<close> once.
\<close>

definition newController ::
    "path option \<Rightarrow> marker list \<Rightarrow> (mouseEvent \<Rightarrow> position) \<Rightarrow> breakpointStore
      \<Rightarrow> (error + unit) \<times> controller" where
  "newController editorPath editorMarkers mouseToPosition breakpointStore =
     update \<lparr>getPath = editorPath, heap = editorMarkers,
       bufferPositionForMouseEvent = mouseToPosition, store = breakpointStore,
       gutter = Some \<lparr>name = ''nuclide-breakpoint'', visible = False, priority = - 1100,
                      gutterDestroyed = False\<rparr>,
       markers = [], lastShadowBreakpointMarker = None, trace = []\<rparr>"

subsection \<open>Pointer events as the host delivers them\<close>

text \<open>
  The host calls one handler per event. An exception thrown by a handler ends that handler
  only; what it had already changed stays changed and the next event is handled.
\<close>

datatype pointerEvent = MouseMove mouseEvent | MouseLeave mouseEvent

fun handlePointerEvent :: "controller \<Rightarrow> pointerEvent \<Rightarrow> controller" where
  "handlePointerEvent c (MouseMove event) = snd (handleGutterMouseMove event c)"
| "handlePointerEvent c (MouseLeave event) = handleGutterMouseLeave event c"

definition handlePointerEvents :: "pointerEvent list \<Rightarrow> controller \<Rightarrow> controller" where
  "handlePointerEvents events c = foldl handlePointerEvent c events"

subsection \<open>Notions the properties are stated with\<close>

text \<open>Every marker the controller has committed is a marker of the editor.\<close>

definition markersAllocated :: "controller \<Rightarrow> bool" where
  "markersAllocated c = list_all (\<lambda>m. m < length (heap c)) (markers c)"

text \<open>
  The two queries of the store agree for the editor's path: the map returned by
  \<^verbatim>\<open>getBreakpointsForPath\<close> has each line once as a key, and the set returned by
  \<^verbatim>\<open>getBreakpointLinesForPath\<close> holds the same lines.
\<close>

definition storeAgrees :: "controller \<Rightarrow> bool" where
  "storeAgrees c =
     (case getPath c of
        None \<Rightarrow> True
      | Some path \<Rightarrow>
          distinct (getBreakpointsForPath (store c) path) \<and>
          set (getBreakpointLinesForPath (store c) path) =
            set (getBreakpointsForPath (store c) path))"

text \<open>The rows of the committed markers, in the order of \<^verbatim>\<open>this._markers\<close>.\<close>

definition markerRows :: "controller \<Rightarrow> nat list" where
  "markerRows c = map (markerRow c) (markers c)"

text \<open>The first committed marker, in the order of \<^verbatim>\<open>this._markers\<close>, that sits at a row.\<close>

definition firstMarkerAtRow :: "controller \<Rightarrow> nat \<Rightarrow> marker_id option" where
  "firstMarkerAtRow c line = find (\<lambda>m. markerRow c m = line) (markers c)"

text \<open>What a pass or a handler appended to the trace.\<close>

definition newEffects :: "controller \<Rightarrow> controller \<Rightarrow> effect list" where
  "newEffects c c' = drop (length (trace c)) (trace c')"

fun isMarkBufferPosition :: "effect \<Rightarrow> bool" where
  "isMarkBufferPosition (MarkBufferPosition m line) = True"
| "isMarkBufferPosition e = False"

fun isMarkerDestroy :: "effect \<Rightarrow> bool" where
  "isMarkerDestroy (MarkerDestroy m) = True"
| "isMarkerDestroy e = False"

fun isShadowDecoration :: "effect \<Rightarrow> bool" where
  "isShadowDecoration (DecorateMarker m elem) = (elem = Shadow_breakpoint_icon)"
| "isShadowDecoration e = False"

text \<open>The markers that exist and carry the shadow icon.\<close>

definition isShadowMarker :: "controller \<Rightarrow> marker_id \<Rightarrow> bool" where
  "isShadowMarker c m =
     (decoration (heap c ! m) = Some Shadow_breakpoint_icon \<and> \<not> isDestroyed (heap c ! m))"

definition shadowMarkers :: "controller \<Rightarrow> marker_id list" where
  "shadowMarkers c = filter (isShadowMarker c) [0..<length (heap c)]"

text \<open>The shadow marker the controller refers to is the only one there is.\<close>

definition shadowTracked :: "controller \<Rightarrow> bool" where
  "shadowTracked c =
     (shadowMarkers c =
        (case lastShadowBreakpointMarker c of None \<Rightarrow> [] | Some m \<Rightarrow> [m]))"

text \<open>
  The editor's marker interface documents the \<^verbatim>\<open>invalidate\<close> option: with
  \<^verbatim>\<open>'never'\<close> the marker is never marked as invalid; under each of the four other
  strategies a change that surrounds the marker, as the deletion of the text spanning it
  does, marks it invalid.
\<close>

definition invalidatedWhenSurrounded :: "invalidate \<Rightarrow> bool" where
  "invalidatedWhenSurrounded strategy = (strategy \<noteq> Never)"

subsection \<open>The reconciliation in closed form, loop by loop\<close>

text \<open>
  The first loop as three list functions of the markers \<open>ms\<close>, their rows \<open>r\<close> and the
  unhandled lines \<open>u\<close>: the markers it keeps, the markers it destroys, and the lines
  still unhandled when it ends.
\<close>

fun keptMarkers :: "(marker_id \<Rightarrow> nat) \<Rightarrow> marker_id list \<Rightarrow> nat list \<Rightarrow> marker_id list" where
  "keptMarkers r [] u = []"
| "keptMarkers r (m # ms) u =
     (if r m \<in> set u then m # keptMarkers r ms (removeAll (r m) u) else keptMarkers r ms u)"

fun droppedMarkers :: "(marker_id \<Rightarrow> nat) \<Rightarrow> marker_id list \<Rightarrow> nat list \<Rightarrow> marker_id list" where
  "droppedMarkers r [] u = []"
| "droppedMarkers r (m # ms) u =
     (if r m \<in> set u then droppedMarkers r ms (removeAll (r m) u) else m # droppedMarkers r ms u)"

fun restLines :: "(marker_id \<Rightarrow> nat) \<Rightarrow> marker_id list \<Rightarrow> nat list \<Rightarrow> nat list" where
  "restLines r [] u = u"
| "restLines r (m # ms) u =
     (if r m \<in> set u then restLines r ms (removeAll (r m) u) else restLines r ms u)"

text \<open>
  The marker that the second loop leaves in the editor for a line, and the calls it makes
  for the lines it creates markers for, the first of which gets the identity \<open>n\<close>.
\<close>

definition committedMarker :: "nat \<Rightarrow> marker" where
  "committedMarker line =
     \<lparr>startBufferPosition = \<lparr>row = line, column = 0\<rparr>, invalidateOption = Never,
      isDestroyed = False, decoration = Some Breakpoint_icon, onDidChangeBound = True\<rparr>"

fun createEffects :: "marker_id \<Rightarrow> nat list \<Rightarrow> effect list" where
  "createEffects n [] = []"
| "createEffects n (line # rest) =
     [MarkBufferPosition n line, DecorateMarker n Breakpoint_icon, MarkerOnDidChange n]
       @ createEffects (Suc n) rest"

text \<open>The editor's markers after \<^verbatim>\<open>destroy()\<close> has been called on each of \<open>ds\<close>.\<close>

definition destroyAll :: "marker_id list \<Rightarrow> marker list \<Rightarrow> marker list" where
  "destroyAll ds h = fold (\<lambda>m h. h[m := (h ! m)\<lparr>isDestroyed := True\<rparr>]) ds h"

text \<open>What one pass keeps, destroys and creates, read off the state it starts in.\<close>

definition keptByUpdate :: "controller \<Rightarrow> path \<Rightarrow> marker_id list" where
  "keptByUpdate c path =
     keptMarkers (markerRow c) (markers c) (getBreakpointLinesForPath (store c) path)"

definition droppedByUpdate :: "controller \<Rightarrow> path \<Rightarrow> marker_id list" where
  "droppedByUpdate c path =
     droppedMarkers (markerRow c) (markers c) (getBreakpointLinesForPath (store c) path)"

definition linesToCreate :: "controller \<Rightarrow> path \<Rightarrow> nat list" where
  "linesToCreate c path =
     filter (\<lambda>l. l \<in> set (restLines (markerRow c) (markers c)
                              (getBreakpointLinesForPath (store c) path)))
       (getBreakpointsForPath (store c) path)"

subsection \<open>Example states\<close>

text \<open>A coordinate-to-position service for lines twenty pixels high.\<close>

definition rowOfPointer :: "mouseEvent \<Rightarrow> position" where
  "rowOfPointer event = \<lparr>row = nat (clientY event div 20), column = 0\<rparr>"

definition pointerAt :: "int \<Rightarrow> mouseEvent" where
  "pointerAt y = \<lparr>targetClassList = [''gutter''], clientX = 4, clientY = y\<rparr>"

text \<open>A store that holds breakpoints at the given lines of one file.\<close>

definition storeWith :: "path \<Rightarrow> nat list \<Rightarrow> breakpointStore" where
  "storeWith file lines =
     \<lparr>getBreakpointsForPath = (\<lambda>p. if p = file then lines else []),
      getBreakpointLinesForPath = (\<lambda>p. if p = file then lines else [])\<rparr>"

text \<open>
  An editor on \<^verbatim>\<open>/a.js\<close> whose controller has committed one marker at each of \<open>rows\<close>,
  while the store holds breakpoints at \<open>lines\<close>.
\<close>

definition editorWith :: "nat list \<Rightarrow> nat list \<Rightarrow> controller" where
  "editorWith rows lines =
     \<lparr>getPath = Some ''/a.js'', heap = map committedMarker rows,
      bufferPositionForMouseEvent = rowOfPointer, store = storeWith ''/a.js'' lines,
      gutter = Some \<lparr>name = ''nuclide-breakpoint'', visible = True, priority = - 1100,
                     gutterDestroyed = False\<rparr>,
      markers = [0..<length rows], lastShadowBreakpointMarker = None, trace = []\<rparr>"

text \<open>
  Markers at rows 2, 5 and 9; the breakpoint of row 5 has been removed from the store and
  one at row 7 added.
\<close>

definition editorAfterStoreChange :: controller where
  "editorAfterStoreChange = editorWith [2, 5, 9] [2, 9, 7]"

text \<open>
  Breakpoints were at rows 3 and 4 and the user joined the two lines: the marker of row 4
  now sits at row 3 as well, the marker-change handler has deleted the breakpoint of row 4
  and added one at row 3, and the store holds row 3 alone.
\<close>

definition editorAfterLineJoin :: controller where
  "editorAfterLineJoin = editorWith [3, 3] [3]"

text \<open>The pointer rests on row 4 of \<open>editorAfterStoreChange\<close>: a shadow marker is shown there.\<close>

definition editorHovering :: controller where
  "editorHovering = snd (handleGutterMouseMove (pointerAt 80) editorAfterStoreChange)"

text \<open>The gutter of \<open>editorHovering\<close> has then been destroyed by something else.\<close>

definition editorGutterGone :: controller where
  "editorGutterGone = handleGutterDestroyed editorHovering"

text \<open>An editor on \<^verbatim>\<open>/a.js\<close> with no marker yet and a breakpoint at row 4 in the store.\<close>

definition editorOneBreakpoint :: controller where
  "editorOneBreakpoint = editorWith [] [4]"

subsection \<open>Counting calls\<close>

definition markerCreations :: "controller \<Rightarrow> nat" where
  "markerCreations c = length (filter isMarkBufferPosition (trace c))"

definition shadowDecorations :: "controller \<Rightarrow> nat" where
  "shadowDecorations c = length (filter isShadowDecoration (trace c))"

definition markerDestructions :: "controller \<Rightarrow> nat" where
  "markerDestructions c = length (filter isMarkerDestroy (trace c))"

text \<open>The rows a list of pointer-move events points at, one after the other.\<close>

definition pointerRows :: "controller \<Rightarrow> mouseEvent list \<Rightarrow> nat list" where
  "pointerRows c events = map (\<lambda>event. getCurrentMouseEventLine event c) events"

subsection \<open>The states a controller can be in\<close>

text \<open>
  Two things change under the controller without a call of its own. An edit of the buffer
  moves markers: the editor gives the marker its new position (and then calls the marker's
  change handler). The store is shared: the debugger actions change its breakpoints.
\<close>

definition markerMovedTo :: "marker_id \<Rightarrow> position \<Rightarrow> controller \<Rightarrow> controller" where
  "markerMovedTo m pos c = c\<lparr>heap := (heap c)[m := (heap c ! m)\<lparr>startBufferPosition := pos\<rparr>]\<rparr>"

definition storeChangedTo :: "breakpointStore \<Rightarrow> controller \<Rightarrow> controller" where
  "storeChangedTo s c = c\<lparr>store := s\<rparr>"

text \<open>
  The states reached from the constructor, in an editor none of whose markers is decorated
  in the new gutter yet, by the events the controller subscribes to, by edits, by changes
  of the store and by the buffer being saved under another path.
\<close>

inductive reachable :: "controller \<Rightarrow> bool" where
  constructed:
    "list_all (\<lambda>x. decoration x = None) editorMarkers \<Longrightarrow>
     reachable (snd (newController editorPath editorMarkers mouseToPosition breakpointStore))"
| breakpointsChanged: "reachable c \<Longrightarrow> reachable (snd (handleBreakpointsChanged path c))"
| markerChanged: "reachable c \<Longrightarrow> reachable (handleMarkerChange event c)"
| gutterClicked: "reachable c \<Longrightarrow> reachable (handleGutterClick mouse c)"
| mouseMoved: "reachable c \<Longrightarrow> reachable (snd (handleGutterMouseMove mouse c))"
| mouseLeft: "reachable c \<Longrightarrow> reachable (handleGutterMouseLeave mouse c)"
| gutterDestroyed: "reachable c \<Longrightarrow> reachable (handleGutterDestroyed c)"
| textEditorDestroyed: "reachable c \<Longrightarrow> reachable (handleTextEditorDestroyed c)"
| edited: "reachable c \<Longrightarrow> reachable (markerMovedTo m pos c)"
| storeChanged: "reachable c \<Longrightarrow> reachable (storeChangedTo s c)"
| pathChanged: "reachable c \<Longrightarrow> reachable (c\<lparr>getPath := p\<rparr>)"

text \<open>
  What holds in every such state: the committed markers are distinct markers of the
  editor, none of them carries the shadow icon, and the shadow marker the controller
  refers to is the only one.
\<close>

definition controllerInv :: "controller \<Rightarrow> bool" where
  "controllerInv c =
     (markersAllocated c \<and> distinct (markers c) \<and> shadowTracked c \<and>
      list_all (\<lambda>m. decoration (heap c ! m) \<noteq> Some Shadow_breakpoint_icon) (markers c))"

text \<open>
  How \<open>editorAfterLineJoin\<close> comes about: the controller is constructed while the store
  holds rows 3 and 4; the user joins row 4 to the empty row 3, so the editor moves the
  marker of row 4 to row 3 and calls its change handler; the store then holds row 3 alone.
\<close>

definition lineJoinRun :: controller where
  "lineJoinRun =
     storeChangedTo (storeWith ''/a.js'' [3])
       (handleMarkerChange
          \<lparr>isValid = True, oldHeadBufferPosition = \<lparr>row = 4, column = 0\<rparr>,
           newHeadBufferPosition = \<lparr>row = 3, column = 0\<rparr>\<rparr>
          (markerMovedTo 1 \<lparr>row = 3, column = 0\<rparr>
             (snd (newController (Some ''/a.js'') [] rowOfPointer
                     (storeWith ''/a.js'' [3, 4])))))"

section \<open>Properties\<close>

subsection \<open>The reconciliation, loop by loop\<close>

lemma markerRow_markerDestroy [simp]: "markerRow (markerDestroy m c) = markerRow c"
proof
  fix i show "markerRow (markerDestroy m c) i = markerRow c i"
    by (cases "m < length (heap c)"; cases "i = m")
       (simp_all add: markerRow_def markerDestroy_def emit_def list_update_beyond)
qed

lemma fold_markerDestroy:
  "fold markerDestroy ds c =
     c\<lparr>heap := destroyAll ds (heap c), trace := trace c @ map MarkerDestroy ds\<rparr>"
  by (induction ds arbitrary: c) (simp_all add: destroyAll_def markerDestroy_def emit_def)

lemma updateDestroyLoop_closed:
  "updateDestroyLoop ms u k c =
     (restLines (markerRow c) ms u, k @ keptMarkers (markerRow c) ms u,
      fold markerDestroy (droppedMarkers (markerRow c) ms u) c)"
  by (induction ms arbitrary: u k c) (simp_all add: Let_def)

lemma createBreakpointMarkerAtLine_live:
  "gutter c = Some g \<Longrightarrow>
   createBreakpointMarkerAtLine line isShadow c =
     (Inr (length (heap c)),
      c\<lparr>heap := heap c @
           [\<lparr>startBufferPosition = \<lparr>row = line, column = 0\<rparr>, invalidateOption = Never,
             isDestroyed = False,
             decoration = Some (if isShadow then Shadow_breakpoint_icon else Breakpoint_icon),
             onDidChangeBound = False\<rparr>],
         trace := trace c @ [MarkBufferPosition (length (heap c)) line,
            DecorateMarker (length (heap c))
              (if isShadow then Shadow_breakpoint_icon else Breakpoint_icon)]\<rparr>)"
  by (simp add: createBreakpointMarkerAtLine_def markBufferPosition_def decorateMarker_def
        emit_def Let_def)

lemma createCommitted_step:
  "gutter c = Some g \<Longrightarrow>
   markerOnDidChange (length (heap c)) (snd (createBreakpointMarkerAtLine l False c)) =
     c\<lparr>heap := heap c @ [committedMarker l],
       trace := trace c @ [MarkBufferPosition (length (heap c)) l,
         DecorateMarker (length (heap c)) Breakpoint_icon, MarkerOnDidChange (length (heap c))]\<rparr>"
  by (simp add: createBreakpointMarkerAtLine_live markerOnDidChange_def emit_def committedMarker_def)

lemma upt_head: "[n ..< Suc (n + k)] = n # [Suc n ..< Suc (n + k)]"
  by (rule upt_conv_Cons) simp

lemma updateCreateLoop_closed:
  "gutter c = Some g \<Longrightarrow>
   updateCreateLoop bs u k c =
     (Inr (k @ [length (heap c) ..< length (heap c) + length (filter (\<lambda>l. l \<in> set u) bs)]),
      c\<lparr>heap := heap c @ map committedMarker (filter (\<lambda>l. l \<in> set u) bs),
        trace := trace c @ createEffects (length (heap c)) (filter (\<lambda>l. l \<in> set u) bs)\<rparr>)"
proof (induction bs arbitrary: k c)
  case Nil
  then show ?case by simp
next
  case (Cons l bs)
  show ?case
  proof (cases "l \<in> set u")
    case False
    then show ?thesis using Cons by simp
  next
    case True
    let ?c1 = "c\<lparr>heap := heap c @ [committedMarker l],
       trace := trace c @ [MarkBufferPosition (length (heap c)) l,
         DecorateMarker (length (heap c)) Breakpoint_icon, MarkerOnDidChange (length (heap c))]\<rparr>"
    have g1: "gutter ?c1 = Some g"
      using Cons.prems by simp
    have "updateCreateLoop (l # bs) u k c = updateCreateLoop bs u (k @ [length (heap c)]) ?c1"
      using True Cons.prems createCommitted_step [OF Cons.prems, of l]
      by (simp add: createBreakpointMarkerAtLine_live)
    also have "\<dots> = (Inr ((k @ [length (heap c)]) @ [length (heap ?c1) ..< length (heap ?c1) + length (filter (\<lambda>l. l \<in> set u) bs)]),
      ?c1\<lparr>heap := heap ?c1 @ map committedMarker (filter (\<lambda>l. l \<in> set u) bs),
        trace := trace ?c1 @ createEffects (length (heap ?c1)) (filter (\<lambda>l. l \<in> set u) bs)\<rparr>)"
      by (rule Cons.IH [OF g1])
    finally show ?thesis
      using True by (simp add: upt_head del: upt_Suc)
  qed
qed

lemma length_destroyAll [simp]: "length (destroyAll ds h) = length h"
  unfolding destroyAll_def by (induction ds arbitrary: h) simp_all

lemma destroyAll_Cons:
  "destroyAll (m # ds) h = destroyAll ds (h[m := (h ! m)\<lparr>isDestroyed := True\<rparr>])"
  by (simp add: destroyAll_def)

lemma destroyAll_Nil [simp]: "destroyAll [] h = h"
  by (simp add: destroyAll_def)

lemma destroyAll_position [simp]:
  "startBufferPosition (destroyAll ds h ! i) = startBufferPosition (h ! i)"
proof (induction ds arbitrary: h)
  case Nil
  show ?case by simp
next
  case (Cons m ds)
  have "startBufferPosition (h[m := (h ! m)\<lparr>isDestroyed := True\<rparr>] ! i) = startBufferPosition (h ! i)"
    by (cases "m < length h"; cases "i = m") (simp_all add: list_update_beyond)
  then show ?case by (simp add: destroyAll_Cons Cons.IH)
qed

lemma destroyAll_untouched: "i \<notin> set ds \<Longrightarrow> destroyAll ds h ! i = h ! i"
  by (induction ds arbitrary: h) (simp_all add: destroyAll_Cons)

lemma destroyAll_destroyed:
  "i \<in> set ds \<Longrightarrow> i < length h \<Longrightarrow> isDestroyed (destroyAll ds h ! i)"
proof (induction ds arbitrary: h)
  case Nil
  then show ?case by simp
next
  case (Cons m ds)
  show ?case
  proof (cases "i \<in> set ds")
    case True
    then show ?thesis using Cons.IH [of "h[m := (h ! m)\<lparr>isDestroyed := True\<rparr>]"] Cons.prems
      by (simp add: destroyAll_Cons)
  next
    case False
    then have "i = m" using Cons.prems by simp
    then show ?thesis using False Cons.prems
      by (simp add: destroyAll_Cons destroyAll_untouched)
  qed
qed

lemma set_restLines: "set (restLines r ms u) = set u - r ` set ms"
  by (induction ms arbitrary: u) auto

lemma set_keptMarkers_subset: "set (keptMarkers r ms u) \<subseteq> set ms"
  by (induction ms arbitrary: u) auto

lemma keptMarkers_rows: "r ` set (keptMarkers r ms u) = r ` set ms \<inter> set u"
  by (induction ms arbitrary: u) auto

lemma distinct_keptMarkers_rows: "distinct (map r (keptMarkers r ms u))"
proof (induction ms arbitrary: u)
  case Nil
  show ?case by simp
next
  case (Cons m ms)
  have "r m \<notin> r ` set (keptMarkers r ms (removeAll (r m) u))"
    by (simp add: keptMarkers_rows)
  then show ?case using Cons.IH by simp
qed

lemma keptMarkers_first:
  "find (\<lambda>m'. r m' = l) ms = Some m \<Longrightarrow> l \<in> set u \<Longrightarrow> m \<in> set (keptMarkers r ms u)"
  by (induction ms arbitrary: u) (auto split: if_splits)

lemma kept_dropped_partition:
  "set (keptMarkers r ms u) \<union> set (droppedMarkers r ms u) = set ms"
  by (induction ms arbitrary: u) auto

lemma set_droppedMarkers_subset: "set (droppedMarkers r ms u) \<subseteq> set ms"
  using kept_dropped_partition [of r ms u] by blast

lemma kept_dropped_disjoint:
  "distinct ms \<Longrightarrow> set (keptMarkers r ms u) \<inter> set (droppedMarkers r ms u) = {}"
proof (induction ms arbitrary: u)
  case Nil
  show ?case by simp
next
  case (Cons m ms)
  then show ?case
    using set_keptMarkers_subset [of r ms] set_droppedMarkers_subset [of r ms]
    by (auto simp: subset_iff)
qed

lemma keptMarkers_all:
  "distinct (map r ms) \<Longrightarrow> r ` set ms \<subseteq> set u \<Longrightarrow>
     keptMarkers r ms u = ms \<and> droppedMarkers r ms u = []"
proof (induction ms arbitrary: u)
  case Nil
  show ?case by simp
next
  case (Cons m ms)
  have "r ` set ms \<subseteq> set (removeAll (r m) u)"
    using Cons.prems by (auto simp: image_iff)
  then show ?case
    using Cons.IH [of "removeAll (r m) u"] Cons.prems by simp
qed

lemma nth_appended_range:
  "map (\<lambda>i. f ((xs @ ys) ! i)) [length xs ..< length xs + length ys] = map f ys"
  by (rule nth_equalityI) (simp_all add: nth_append)

lemma markerRow_emit [simp]: "markerRow (emit e c) = markerRow c"
  by (rule ext) (simp add: markerRow_def emit_def)

lemma markerRow_trace [simp]: "markerRow (c\<lparr>trace := t\<rparr>) = markerRow c"
  by (rule ext) (simp add: markerRow_def)

lemma update_closed:
  assumes "gutter c = Some g" and "getPath c = Some path"
  shows "update c =
    (Inr (),
     c\<lparr>heap := destroyAll (droppedByUpdate c path) (heap c)
                 @ map committedMarker (linesToCreate c path),
       trace := trace c
          @ [StoreGetBreakpointsForPath path, StoreGetBreakpointLinesForPath path]
          @ map MarkerDestroy (droppedByUpdate c path)
          @ createEffects (length (heap c)) (linesToCreate c path)
          @ [GutterShow],
       gutter := Some (g\<lparr>visible := True\<rparr>),
       markers := keptByUpdate c path
          @ [length (heap c) ..< length (heap c) + length (linesToCreate c path)]\<rparr>)"
proof -
  let ?u = "getBreakpointLinesForPath (store c) path"
  let ?ds = "droppedMarkers (markerRow c) (markers c) ?u"
  let ?c3 = "c\<lparr>heap := destroyAll ?ds (heap c),
               trace := trace c @ StoreGetBreakpointsForPath path #
                 StoreGetBreakpointLinesForPath path # map MarkerDestroy ?ds\<rparr>"
  have g3: "gutter ?c3 = Some g"
    using assms by simp
  show ?thesis
    using assms
    by (simp add: update_def Let_def updateDestroyLoop_closed fold_markerDestroy emit_def
          updateCreateLoop_closed [OF g3] keptByUpdate_def droppedByUpdate_def
          linesToCreate_def)
qed

lemma update_never_throws: "fst (update c) = Inr ()"
  by (cases "gutter c"; cases "getPath c") (simp_all add: update_closed, simp_all add: update_def)

lemma set_linesToCreate:
  "set (linesToCreate c path) =
     (set (getBreakpointsForPath (store c) path) \<inter> set (getBreakpointLinesForPath (store c) path))
       - set (markerRows c)"
  by (auto simp: linesToCreate_def set_restLines markerRows_def)

lemma keptByUpdate_allocated:
  "markersAllocated c \<Longrightarrow> m \<in> set (keptByUpdate c path) \<Longrightarrow> m < length (heap c)"
  using set_keptMarkers_subset [of "markerRow c" "markers c"]
  by (auto simp: markersAllocated_def keptByUpdate_def list_all_iff)

lemma markerRow_fun: "markerRow c = (\<lambda>m. row (startBufferPosition (heap c ! m)))"
  by (rule ext) (simp add: markerRow_def)

lemma update_rows:
  assumes "gutter c = Some g" and "getPath c = Some path" and "markersAllocated c"
  shows "markerRows (snd (update c)) =
           map (markerRow c) (keptByUpdate c path) @ linesToCreate c path"
proof -
  let ?h = "destroyAll (droppedByUpdate c path) (heap c)"
  let ?new = "map committedMarker (linesToCreate c path)"
  have kept: "map (\<lambda>m. row (startBufferPosition ((?h @ ?new) ! m))) (keptByUpdate c path)
                = map (markerRow c) (keptByUpdate c path)"
    using keptByUpdate_allocated [OF assms(3)]
    by (simp add: nth_append markerRow_def)
  have new: "map (\<lambda>i. row (startBufferPosition ((?h @ ?new) ! i)))
               [length ?h ..< length ?h + length ?new] = map (\<lambda>x. row (startBufferPosition x)) ?new"
    by (rule nth_appended_range)
  have "map (\<lambda>x. row (startBufferPosition x)) ?new = linesToCreate c path"
    by (simp add: comp_def committedMarker_def)
  moreover have "heap (snd (update c)) = ?h @ ?new"
    and "markers (snd (update c)) = keptByUpdate c path
          @ [length (heap c) ..< length (heap c) + length (linesToCreate c path)]"
    by (simp_all add: update_closed [OF assms(1,2)])
  ultimately show ?thesis
    using kept new
    by (simp add: markerRows_def markerRow_fun [of "snd (update c)"])
qed

lemma createEffects_no_destroy: "MarkerDestroy m \<notin> set (createEffects n ls)"
  by (induction ls arbitrary: n) simp_all

lemma filter_createEffects_destroy [simp]: "filter isMarkerDestroy (createEffects n ls) = []"
  by (induction ls arbitrary: n) simp_all

lemma length_filter_createEffects [simp]:
  "length (filter isMarkBufferPosition (createEffects n ls)) = length ls"
  by (induction ls arbitrary: n) simp_all

lemma update_newEffects:
  assumes "gutter c = Some g" and "getPath c = Some path"
  shows "newEffects c (snd (update c)) =
           [StoreGetBreakpointsForPath path, StoreGetBreakpointLinesForPath path]
           @ map MarkerDestroy (droppedByUpdate c path)
           @ createEffects (length (heap c)) (linesToCreate c path)
           @ [GutterShow]"
  by (simp add: update_closed [OF assms] newEffects_def)

lemma update_heap:
  assumes "gutter c = Some g" and "getPath c = Some path"
  shows "heap (snd (update c)) =
           destroyAll (droppedByUpdate c path) (heap c) @ map committedMarker (linesToCreate c path)"
  by (simp add: update_closed [OF assms])

lemma update_markers:
  assumes "gutter c = Some g" and "getPath c = Some path"
  shows "markers (snd (update c)) =
           keptByUpdate c path @ [length (heap c) ..< length (heap c) + length (linesToCreate c path)]"
  by (simp add: update_closed [OF assms])

lemma update_new_marker:
  assumes "gutter c = Some g" and "getPath c = Some path"
    and "length (heap c) \<le> m" and "m < length (heap c) + length (linesToCreate c path)"
  shows "heap (snd (update c)) ! m = committedMarker (linesToCreate c path ! (m - length (heap c)))"
  using assms(3,4) by (simp add: update_heap [OF assms(1,2)] nth_append)

lemma update_old_marker:
  assumes "gutter c = Some g" and "getPath c = Some path"
    and "m < length (heap c)" and "m \<notin> set (droppedByUpdate c path)"
  shows "heap (snd (update c)) ! m = heap c ! m"
  using assms(3,4) by (simp add: update_heap [OF assms(1,2)] nth_append destroyAll_untouched)


lemma update_keeps_editor:
  "getPath (snd (update c)) = getPath c \<and> store (snd (update c)) = store c \<and>
   lastShadowBreakpointMarker (snd (update c)) = lastShadowBreakpointMarker c \<and>
   bufferPositionForMouseEvent (snd (update c)) = bufferPositionForMouseEvent c"
  by (cases "gutter c"; cases "getPath c") (simp_all add: update_closed, simp_all add: update_def)

lemma update_allocated:
  assumes "markersAllocated c"
  shows "markersAllocated (snd (update c))"
proof (cases "gutter c")
  case None
  then show ?thesis using assms by (simp add: update_def)
next
  case (Some g)
  show ?thesis
  proof (cases "getPath c")
    case None
    then show ?thesis using assms Some by (simp add: update_def)
  next
    case (Some path)
    have "\<And>m. m \<in> set (keptByUpdate c path) \<Longrightarrow>
            m < length (heap c) + length (linesToCreate c path)"
      using keptByUpdate_allocated [OF assms] by fastforce
    then show ?thesis
      using update_heap [OF \<open>gutter c = Some g\<close> Some] update_markers [OF \<open>gutter c = Some g\<close> Some]
      by (auto simp: markersAllocated_def list_all_iff)
  qed
qed

lemma update_fixpoint:
  assumes "gutter c = Some g" and "getPath c = Some path"
    and "distinct (markerRows c)"
    and "set (markerRows c) = set (getBreakpointLinesForPath (store c) path)"
    and "set (getBreakpointsForPath (store c) path) = set (getBreakpointLinesForPath (store c) path)"
  shows "heap (snd (update c)) = heap c" and "markers (snd (update c)) = markers c"
    and "newEffects c (snd (update c)) =
           [StoreGetBreakpointsForPath path, StoreGetBreakpointLinesForPath path, GutterShow]"
proof -
  have "markerRow c ` set (markers c) \<subseteq> set (getBreakpointLinesForPath (store c) path)"
    using assms(4) by (simp add: markerRows_def)
  then have k: "keptByUpdate c path = markers c" and d: "droppedByUpdate c path = []"
    using keptMarkers_all [of "markerRow c" "markers c"] assms(3)
    by (simp_all add: keptByUpdate_def droppedByUpdate_def markerRows_def)
  have "set (linesToCreate c path) = {}"
    using assms(4,5) by (simp add: set_linesToCreate)
  then have l: "linesToCreate c path = []" by simp
  show "heap (snd (update c)) = heap c"
    by (simp add: update_heap [OF assms(1,2)] d l)
  show "markers (snd (update c)) = markers c"
    by (simp add: update_markers [OF assms(1,2)] k l)
  show "newEffects c (snd (update c)) =
           [StoreGetBreakpointsForPath path, StoreGetBreakpointLinesForPath path, GutterShow]"
    by (simp add: update_newEffects [OF assms(1,2)] d l)
qed

lemma update_result_rows:
  assumes "gutter c = Some g" and "getPath c = Some path"
    and "markersAllocated c"
    and "distinct (getBreakpointsForPath (store c) path)"
    and "set (getBreakpointLinesForPath (store c) path) = set (getBreakpointsForPath (store c) path)"
  shows "distinct (markerRows (snd (update c)))"
    and "set (markerRows (snd (update c))) = set (getBreakpointsForPath (store c) path)"
proof -
  have rows: "markerRows (snd (update c)) =
      map (markerRow c) (keptByUpdate c path) @ linesToCreate c path"
    by (rule update_rows [OF assms(1-3)])
  have kept_rows: "markerRow c ` set (keptByUpdate c path) =
      set (markerRows c) \<inter> set (getBreakpointsForPath (store c) path)"
    using assms(5) by (simp add: keptByUpdate_def keptMarkers_rows markerRows_def)
  have fl_set: "set (linesToCreate c path) =
      set (getBreakpointsForPath (store c) path) - set (markerRows c)"
    using assms(5) by (simp add: set_linesToCreate)
  show "distinct (markerRows (snd (update c)))"
    using kept_rows fl_set assms(4)
    by (auto simp: rows keptByUpdate_def distinct_keptMarkers_rows linesToCreate_def)
  show "set (markerRows (snd (update c))) = set (getBreakpointsForPath (store c) path)"
    using kept_rows fl_set by (auto simp: rows)
qed

subsection \<open>The shadow marker\<close>

lemma shadowMarkers_same_heap:
  "heap c' = heap c \<Longrightarrow> shadowMarkers c' = shadowMarkers c"
  by (simp add: shadowMarkers_def isShadowMarker_def [abs_def])

lemma shadowMarkers_valid: "m \<in> set (shadowMarkers c) \<Longrightarrow> m < length (heap c)"
  by (simp add: shadowMarkers_def)

lemma shadowMarkers_markerDestroy:
  assumes "m < length (heap c)"
  shows "shadowMarkers (markerDestroy m c) = filter (\<lambda>i. i \<noteq> m) (shadowMarkers c)"
proof -
  have len: "length (heap (markerDestroy m c)) = length (heap c)"
    by (simp add: markerDestroy_def emit_def)
  have "isShadowMarker (markerDestroy m c) i = (isShadowMarker c i \<and> i \<noteq> m)" for i
    using assms by (cases "i = m") (simp_all add: isShadowMarker_def markerDestroy_def emit_def)
  then have "filter (isShadowMarker (markerDestroy m c)) [0..<length (heap c)] =
             filter (\<lambda>i. isShadowMarker c i \<and> i \<noteq> m) [0..<length (heap c)]"
    by (intro filter_cong refl)
  then show ?thesis
    by (simp add: shadowMarkers_def len)
qed

lemma shadowMarkers_new_marker:
  assumes "heap c' = heap c @ [x]"
  shows "shadowMarkers c' =
           shadowMarkers c @
             (if decoration x = Some Shadow_breakpoint_icon \<and> \<not> isDestroyed x
              then [length (heap c)] else [])"
proof -
  have "isShadowMarker c' i = isShadowMarker c i" if "i \<in> set [0..<length (heap c)]" for i
    using that assms by (simp add: isShadowMarker_def nth_append)
  then have "filter (isShadowMarker c') [0..<length (heap c)] =
             filter (isShadowMarker c) [0..<length (heap c)]"
    by (intro filter_cong refl)
  moreover have "isShadowMarker c' (length (heap c)) =
      (decoration x = Some Shadow_breakpoint_icon \<and> \<not> isDestroyed x)"
    using assms by (simp add: isShadowMarker_def)
  ultimately show ?thesis
    using assms by (simp add: shadowMarkers_def)
qed

lemma removeLastShadowBreakpoint_tracked:
  assumes "shadowTracked c"
  shows "shadowMarkers (removeLastShadowBreakpoint c) = [] \<and>
         lastShadowBreakpointMarker (removeLastShadowBreakpoint c) = None"
proof (cases "lastShadowBreakpointMarker c")
  case None
  then show ?thesis using assms by (simp add: removeLastShadowBreakpoint_def shadowTracked_def)
next
  case (Some m)
  then have s: "shadowMarkers c = [m]" using assms by (simp add: shadowTracked_def)
  then have "m < length (heap c)" using shadowMarkers_valid [of m c] by simp
  then have "shadowMarkers (markerDestroy m c) = []"
    by (simp add: shadowMarkers_markerDestroy s)
  moreover have "shadowMarkers ((markerDestroy m c)\<lparr>lastShadowBreakpointMarker := None\<rparr>) =
      shadowMarkers (markerDestroy m c)"
    by (rule shadowMarkers_same_heap) simp
  ultimately show ?thesis
    using Some by (simp add: removeLastShadowBreakpoint_def)
qed

lemma createShadowBreakpointAtLine_tracked:
  assumes "shadowMarkers c = []" and "lastShadowBreakpointMarker c = None"
  shows "shadowTracked (snd (createShadowBreakpointAtLine line c))"
proof (cases "gutter c")
  case None
  let ?c' = "snd (createShadowBreakpointAtLine line c)"
  have h: "heap ?c' = heap c @ [\<lparr>startBufferPosition = \<lparr>row = line, column = 0\<rparr>,
      invalidateOption = Never, isDestroyed = False, decoration = None, onDidChangeBound = False\<rparr>]"
    and l: "lastShadowBreakpointMarker ?c' = None"
    using None assms(2)
    by (simp_all add: createShadowBreakpointAtLine_def createBreakpointMarkerAtLine_def
        markBufferPosition_def emit_def Let_def)
  show ?thesis
    using shadowMarkers_new_marker [OF h] assms(1) l by (simp add: shadowTracked_def)
next
  case (Some g)
  let ?c' = "snd (createShadowBreakpointAtLine line c)"
  have h: "heap ?c' = heap c @ [\<lparr>startBufferPosition = \<lparr>row = line, column = 0\<rparr>,
      invalidateOption = Never, isDestroyed = False, decoration = Some Shadow_breakpoint_icon,
      onDidChangeBound = False\<rparr>]"
    and l: "lastShadowBreakpointMarker ?c' = Some (length (heap c))"
    by (simp_all add: createShadowBreakpointAtLine_def createBreakpointMarkerAtLine_live [OF Some])
  show ?thesis
    using shadowMarkers_new_marker [OF h] assms(1) l by (simp add: shadowTracked_def)
qed

lemma handleGutterMouseMove_tracked:
  assumes "shadowTracked c"
  shows "shadowTracked (snd (handleGutterMouseMove event c))"
  using assms removeLastShadowBreakpoint_tracked [OF assms]
  by (simp add: handleGutterMouseMove_def Let_def createShadowBreakpointAtLine_tracked)

lemma handleGutterMouseLeave_tracked:
  assumes "shadowTracked c"
  shows "shadowTracked (handleGutterMouseLeave event c)"
  using removeLastShadowBreakpoint_tracked [OF assms]
  by (simp add: handleGutterMouseLeave_def shadowTracked_def)

lemma handlePointerEvents_tracked:
  "shadowTracked c \<Longrightarrow> shadowTracked (handlePointerEvents events c)"
  unfolding handlePointerEvents_def
proof (induction events arbitrary: c)
  case Nil
  then show ?case by simp
next
  case (Cons e events)
  have "shadowTracked (handlePointerEvent c e)"
    using Cons.prems
    by (cases e) (simp_all add: handleGutterMouseMove_tracked handleGutterMouseLeave_tracked)
  then show ?case using Cons.IH by simp
qed

lemma shadowTracked_at_most_one: "shadowTracked c \<Longrightarrow> length (shadowMarkers c) \<le> 1"
  by (simp add: shadowTracked_def split: option.splits)

lemma removeLastShadowBreakpoint_fields:
  "gutter (removeLastShadowBreakpoint c) = gutter c \<and>
   bufferPositionForMouseEvent (removeLastShadowBreakpoint c) = bufferPositionForMouseEvent c \<and>
   length (heap (removeLastShadowBreakpoint c)) = length (heap c) \<and>
   lastShadowBreakpointMarker (removeLastShadowBreakpoint c) = None \<and>
   markerCreations (removeLastShadowBreakpoint c) = markerCreations c \<and>
   shadowDecorations (removeLastShadowBreakpoint c) = shadowDecorations c \<and>
   markerDestructions (removeLastShadowBreakpoint c) =
     markerDestructions c + (case lastShadowBreakpointMarker c of None \<Rightarrow> 0 | Some m \<Rightarrow> 1)"
  by (simp add: removeLastShadowBreakpoint_def markerDestroy_def emit_def markerCreations_def
      shadowDecorations_def markerDestructions_def split: option.splits)

lemma createShadowBreakpointAtLine_fields:
  assumes "gutter c = Some g"
  shows "gutter (snd (createShadowBreakpointAtLine line c)) = Some g \<and>
   bufferPositionForMouseEvent (snd (createShadowBreakpointAtLine line c)) =
     bufferPositionForMouseEvent c \<and>
   lastShadowBreakpointMarker (snd (createShadowBreakpointAtLine line c)) =
     Some (length (heap c)) \<and>
   markerRow (snd (createShadowBreakpointAtLine line c)) (length (heap c)) = line \<and>
   markerCreations (snd (createShadowBreakpointAtLine line c)) = markerCreations c + 1 \<and>
   shadowDecorations (snd (createShadowBreakpointAtLine line c)) = shadowDecorations c + 1 \<and>
   markerDestructions (snd (createShadowBreakpointAtLine line c)) = markerDestructions c"
  using assms
  by (simp add: createShadowBreakpointAtLine_def createBreakpointMarkerAtLine_live [OF assms]
      markerRow_def markerCreations_def shadowDecorations_def markerDestructions_def)

lemma handleGutterMouseMove_same_row:
  "isLineOverLastShadowBreakpoint (getCurrentMouseEventLine event c) c \<Longrightarrow>
   handleGutterMouseMove event c = (Inr (), c)"
  by (simp add: handleGutterMouseMove_def)

lemma handleGutterMouseMove_new_row:
  assumes "gutter c = Some g"
    and "\<not> isLineOverLastShadowBreakpoint (getCurrentMouseEventLine event c) c"
  shows "gutter (snd (handleGutterMouseMove event c)) = Some g \<and>
   bufferPositionForMouseEvent (snd (handleGutterMouseMove event c)) =
     bufferPositionForMouseEvent c \<and>
   (\<exists>m. lastShadowBreakpointMarker (snd (handleGutterMouseMove event c)) = Some m \<and>
        markerRow (snd (handleGutterMouseMove event c)) m = getCurrentMouseEventLine event c) \<and>
   markerCreations (snd (handleGutterMouseMove event c)) = markerCreations c + 1 \<and>
   shadowDecorations (snd (handleGutterMouseMove event c)) = shadowDecorations c + 1 \<and>
   markerDestructions (snd (handleGutterMouseMove event c)) =
     markerDestructions c + (case lastShadowBreakpointMarker c of None \<Rightarrow> 0 | Some m \<Rightarrow> 1)"
proof -
  let ?c1 = "removeLastShadowBreakpoint c"
  have g1: "gutter ?c1 = Some g"
    using assms(1) removeLastShadowBreakpoint_fields [of c] by simp
  show ?thesis
    using assms(2) createShadowBreakpointAtLine_fields [OF g1, of "getCurrentMouseEventLine event c"]
      removeLastShadowBreakpoint_fields [of c]
    by (simp add: handleGutterMouseMove_def Let_def)
qed

lemma length_remdups_adj_Cons: "Suc 0 \<le> length (remdups_adj (x # xs))"
  by (cases "remdups_adj (x # xs)") simp_all

lemma pointerRows_same:
  "bufferPositionForMouseEvent c' = bufferPositionForMouseEvent c \<Longrightarrow>
   pointerRows c' events = pointerRows c events"
  by (simp add: pointerRows_def getCurrentMouseEventLine_def)

lemma moves_count:
  assumes "gutter c = Some g"
  shows "(case lastShadowBreakpointMarker c of
            None \<Rightarrow>
              markerCreations (handlePointerEvents (map MouseMove events) c) =
                markerCreations c + length (remdups_adj (pointerRows c events)) \<and>
              shadowDecorations (handlePointerEvents (map MouseMove events) c) =
                shadowDecorations c + length (remdups_adj (pointerRows c events)) \<and>
              markerDestructions (handlePointerEvents (map MouseMove events) c) =
                markerDestructions c + (length (remdups_adj (pointerRows c events)) - 1)
          | Some m \<Rightarrow>
              markerCreations (handlePointerEvents (map MouseMove events) c) =
                markerCreations c + (length (remdups_adj (markerRow c m # pointerRows c events)) - 1) \<and>
              shadowDecorations (handlePointerEvents (map MouseMove events) c) =
                shadowDecorations c + (length (remdups_adj (markerRow c m # pointerRows c events)) - 1) \<and>
              markerDestructions (handlePointerEvents (map MouseMove events) c) =
                markerDestructions c + (length (remdups_adj (markerRow c m # pointerRows c events)) - 1))"
  using assms
proof (induction events arbitrary: c g)
  case Nil
  then show ?case by (simp add: handlePointerEvents_def pointerRows_def split: option.splits)
next
  case (Cons e events)
  let ?line = "getCurrentMouseEventLine e c"
  let ?c1 = "snd (handleGutterMouseMove e c)"
  have run: "handlePointerEvents (MouseMove e # map MouseMove events) c =
             handlePointerEvents (map MouseMove events) ?c1"
    by (simp add: handlePointerEvents_def)
  have rows: "pointerRows c (e # events) = ?line # pointerRows c events"
    by (simp add: pointerRows_def)
  show ?case
  proof (cases "isLineOverLastShadowBreakpoint ?line c")
    case True
    then obtain m where m: "lastShadowBreakpointMarker c = Some m" "markerRow c m = ?line"
      by (auto simp: isLineOverLastShadowBreakpoint_def split: option.splits)
    have same: "?c1 = c"
      using handleGutterMouseMove_same_row [OF True] by simp
    show ?thesis
      using Cons.IH [OF Cons.prems] m
      by (simp add: run same rows)
  next
    case False
    note step = handleGutterMouseMove_new_row [OF Cons.prems False]
    then obtain m1 where m1: "lastShadowBreakpointMarker ?c1 = Some m1" "markerRow ?c1 m1 = ?line"
      by blast
    have g1: "gutter ?c1 = Some g" using step by simp
    have r1: "pointerRows ?c1 events = pointerRows c events"
      using step by (intro pointerRows_same) simp
    note IH = Cons.IH [OF g1, unfolded m1 r1, simplified]
    note len = length_remdups_adj_Cons [of ?line "pointerRows c events"]
    show ?thesis
    proof (cases "lastShadowBreakpointMarker c")
      case None
      then show ?thesis
        using IH step len by (simp add: run rows m1)
    next
      case (Some m)
      then have "markerRow c m \<noteq> ?line"
        using False by (simp add: isLineOverLastShadowBreakpoint_def)
      then show ?thesis
        using IH step len Some by (simp add: run rows m1)
    qed
  qed
qed

subsection \<open>Disposal and the void gutter\<close>

lemma dispose_closed:
  "dispose c =
     c\<lparr>heap := destroyAll (markers c) (heap c),
       trace := trace c @ DisposablesDispose # map MarkerDestroy (markers c)
                 @ (case gutter c of None \<Rightarrow> [] | Some g \<Rightarrow> [GutterDestroy]),
       gutter := map_option (\<lambda>g. g\<lparr>gutterDestroyed := True\<rparr>) (gutter c)\<rparr>"
  by (cases "gutter c") (simp_all add: dispose_def Let_def fold_markerDestroy emit_def)

lemma dispose_destroys_committed_markers:
  "m \<in> set (markers c) \<Longrightarrow> m < length (heap c) \<Longrightarrow> isDestroyed (heap (dispose c) ! m)"
  by (simp add: dispose_closed destroyAll_destroyed)

lemma dispose_spares_other_markers:
  "m \<notin> set (markers c) \<Longrightarrow>
   heap (dispose c) ! m = heap c ! m \<and> MarkerDestroy m \<notin> set (newEffects c (dispose c))"
  by (auto simp: dispose_closed destroyAll_untouched newEffects_def split: option.splits)

lemma update_void_gutter: "gutter c = None \<Longrightarrow> update c = (Inr (), c)"
  by (simp add: update_def)

lemma handleGutterMouseMove_void_gutter:
  assumes "gutter c = None"
    and "\<not> isLineOverLastShadowBreakpoint (getCurrentMouseEventLine event c) c"
  shows "fst (handleGutterMouseMove event c) = Inl InvariantViolation"
proof -
  have "gutter (removeLastShadowBreakpoint c) = None"
    using assms(1) removeLastShadowBreakpoint_fields [of c] by simp
  then show ?thesis
    using assms(2)
    by (simp add: handleGutterMouseMove_def Let_def createShadowBreakpointAtLine_def
        createBreakpointMarkerAtLine_def markBufferPosition_def emit_def)
qed

subsection \<open>Evaluating the example states\<close>

lemmas example_defs = editorWith_def storeWith_def committedMarker_def rowOfPointer_def
  pointerAt_def editorAfterStoreChange_def editorAfterLineJoin_def

lemmas method_defs = update_def emit_def markerRow_def markerDestroy_def markBufferPosition_def
  decorateMarker_def markerOnDidChange_def createBreakpointMarkerAtLine_def Let_def

lemmas hover_defs = handleGutterMouseMove_def handleGutterMouseLeave_def
  getCurrentMouseEventLine_def isLineOverLastShadowBreakpoint_def removeLastShadowBreakpoint_def
  createShadowBreakpointAtLine_def

lemma editorHovering_eval:
  "editorHovering = editorAfterStoreChange
     \<lparr>heap := heap editorAfterStoreChange @
         [\<lparr>startBufferPosition = \<lparr>row = 4, column = 0\<rparr>, invalidateOption = Never,
           isDestroyed = False, decoration = Some Shadow_breakpoint_icon,
           onDidChangeBound = False\<rparr>],
       lastShadowBreakpointMarker := Some 3,
       trace := [MarkBufferPosition 3 4, DecorateMarker 3 Shadow_breakpoint_icon]\<rparr>"
  by (simp add: editorHovering_def example_defs method_defs hover_defs)

subsection \<open>Reachable states\<close>

lemma distinct_keptMarkers: "distinct ms \<Longrightarrow> distinct (keptMarkers r ms u)"
proof (induction ms arbitrary: u)
  case Nil
  show ?case by simp
next
  case (Cons m ms)
  then show ?case
    using set_keptMarkers_subset [of r ms] by (auto simp: subset_iff)
qed

lemma destroyAll_decoration [simp]: "decoration (destroyAll ds h ! i) = decoration (h ! i)"
proof (induction ds arbitrary: h)
  case Nil
  show ?case by simp
next
  case (Cons m ds)
  have "decoration (h[m := (h ! m)\<lparr>isDestroyed := True\<rparr>] ! i) = decoration (h ! i)"
    by (cases "m < length h"; cases "i = m") (simp_all add: list_update_beyond)
  then show ?case by (simp add: destroyAll_Cons Cons.IH)
qed

lemma shadowMarkers_destroyAll:
  assumes "\<forall>m \<in> set ds. m < length (heap c)" and "heap c' = destroyAll ds (heap c)"
  shows "shadowMarkers c' = filter (\<lambda>i. i \<notin> set ds) (shadowMarkers c)"
  using assms
proof (induction ds arbitrary: c)
  case Nil
  then have "shadowMarkers c' = shadowMarkers c"
    by (intro shadowMarkers_same_heap) simp
  then show ?case by simp
next
  case (Cons m ds)
  let ?c1 = "markerDestroy m c"
  have h1: "heap ?c1 = (heap c)[m := (heap c ! m)\<lparr>isDestroyed := True\<rparr>]"
    by (simp add: markerDestroy_def emit_def)
  have "shadowMarkers c' = filter (\<lambda>i. i \<notin> set ds) (shadowMarkers ?c1)"
    using Cons.prems by (intro Cons.IH) (simp_all add: h1 destroyAll_Cons)
  also have "shadowMarkers ?c1 = filter (\<lambda>i. i \<noteq> m) (shadowMarkers c)"
    using Cons.prems by (simp add: shadowMarkers_markerDestroy)
  finally show ?case by (simp add: conj_commute)
qed

lemma shadowMarkers_appended:
  assumes "heap c' = heap c @ ys"
    and "\<forall>y \<in> set ys. decoration y \<noteq> Some Shadow_breakpoint_icon"
  shows "shadowMarkers c' = shadowMarkers c"
proof -
  have old: "isShadowMarker c' i = isShadowMarker c i" if "i \<in> set [0..<length (heap c)]" for i
    using that assms(1) by (simp add: isShadowMarker_def nth_append)
  have new: "\<not> isShadowMarker c' i"
    if "i \<in> set [length (heap c)..<length (heap c) + length ys]" for i
  proof -
    have "(heap c @ ys) ! i = ys ! (i - length (heap c))" and "i - length (heap c) < length ys"
      using that by (auto simp: nth_append)
    then show ?thesis
      using assms by (simp add: isShadowMarker_def)
  qed
  have "filter (isShadowMarker c') [0..<length (heap c)] =
        filter (isShadowMarker c) [0..<length (heap c)]"
    using old by (intro filter_cong refl)
  moreover have "filter (isShadowMarker c') [length (heap c)..<length (heap c) + length ys] = []"
    using new by (simp add: filter_empty_conv del: set_upt)
  moreover have "[0..<length (heap c) + length ys] =
      [0..<length (heap c)] @ [length (heap c)..<length (heap c) + length ys]"
    by (rule upt_add_eq_append) simp
  ultimately show ?thesis
    using assms(1) by (simp add: shadowMarkers_def)
qed

lemma shadowMarkers_cong:
  assumes "length (heap c') = length (heap c)"
    and "\<And>i. i < length (heap c) \<Longrightarrow>
           decoration (heap c' ! i) = decoration (heap c ! i) \<and>
           isDestroyed (heap c' ! i) = isDestroyed (heap c ! i)"
  shows "shadowMarkers c' = shadowMarkers c"
proof -
  have "filter (isShadowMarker c') [0..<length (heap c)] =
        filter (isShadowMarker c) [0..<length (heap c)]"
    using assms(2) by (intro filter_cong refl) (simp add: isShadowMarker_def)
  then show ?thesis
    by (simp add: shadowMarkers_def assms(1))
qed

lemma controllerInv_frame:
  assumes "controllerInv c" and "shadowTracked c'" and "markers c' = markers c"
    and "length (heap c) \<le> length (heap c')"
    and "\<And>i. i < length (heap c) \<Longrightarrow> decoration (heap c' ! i) = decoration (heap c ! i)"
  shows "controllerInv c'"
  using assms by (auto simp: controllerInv_def markersAllocated_def list_all_iff)

lemma controllerInv_same_markers:
  assumes "controllerInv c" and "heap c' = heap c" and "markers c' = markers c"
    and "lastShadowBreakpointMarker c' = lastShadowBreakpointMarker c"
  shows "controllerInv c'"
proof -
  have "shadowMarkers c' = shadowMarkers c"
    using assms(2) by (rule shadowMarkers_same_heap)
  then have "shadowTracked c'"
    using assms(1,4) by (simp add: controllerInv_def shadowTracked_def)
  then show ?thesis
    using assms by (intro controllerInv_frame [of c c']) simp_all
qed

lemma update_controllerInv:
  assumes "controllerInv c"
  shows "controllerInv (snd (update c))"
proof (cases "gutter c")
  case None
  then show ?thesis using assms by (simp add: update_def)
next
  case (Some g)
  note g = this
  show ?thesis
  proof (cases "getPath c")
    case None
    then show ?thesis using assms g by (simp add: update_def)
  next
    case (Some p)
    note p = this
    let ?c' = "snd (update c)"
    let ?ds = "droppedByUpdate c p"
    let ?kept = "keptByUpdate c p"
    let ?fl = "linesToCreate c p"
    have alloc: "markersAllocated c" and dist: "distinct (markers c)"
      and tracked: "shadowTracked c"
      and plain: "\<And>m. m \<in> set (markers c) \<Longrightarrow>
                    decoration (heap c ! m) \<noteq> Some Shadow_breakpoint_icon"
      using assms by (auto simp: controllerInv_def list_all_iff)
    have in_heap: "\<And>m. m \<in> set (markers c) \<Longrightarrow> m < length (heap c)"
      using alloc by (simp add: markersAllocated_def list_all_iff)
    have kept_sub: "set ?kept \<subseteq> set (markers c)"
      by (simp add: keptByUpdate_def set_keptMarkers_subset)
    have ds_sub: "set ?ds \<subseteq> set (markers c)"
      by (simp add: droppedByUpdate_def set_droppedMarkers_subset)
    have h': "heap ?c' = destroyAll ?ds (heap c) @ map committedMarker ?fl"
      by (rule update_heap [OF g p])
    have m': "markers ?c' = ?kept @ [length (heap c) ..< length (heap c) + length ?fl]"
      by (rule update_markers [OF g p])
    have a': "markersAllocated ?c'"
      by (rule update_allocated [OF alloc])
    have "\<And>m. m \<in> set ?kept \<Longrightarrow> m < length (heap c)"
      using kept_sub in_heap by blast
    then have d': "distinct (markers ?c')"
      using dist by (fastforce simp: m' keptByUpdate_def distinct_keptMarkers)
    have s1: "shadowMarkers (c\<lparr>heap := destroyAll ?ds (heap c)\<rparr>) =
              filter (\<lambda>i. i \<notin> set ?ds) (shadowMarkers c)"
      using ds_sub in_heap by (intro shadowMarkers_destroyAll) auto
    have s2: "shadowMarkers ?c' = shadowMarkers (c\<lparr>heap := destroyAll ?ds (heap c)\<rparr>)"
      by (rule shadowMarkers_appended [where ys = "map committedMarker ?fl"])
         (simp_all add: h' committedMarker_def)
    have keep: "filter (\<lambda>i. i \<notin> set ?ds) (shadowMarkers c) = shadowMarkers c"
    proof -
      have "i \<notin> set ?ds" if "i \<in> set (shadowMarkers c)" for i
      proof
        assume "i \<in> set ?ds"
        then have "decoration (heap c ! i) \<noteq> Some Shadow_breakpoint_icon"
          using ds_sub plain by blast
        then show False
          using that by (simp add: shadowMarkers_def isShadowMarker_def)
      qed
      then show ?thesis by (simp add: filter_id_conv)
    qed
    have l': "lastShadowBreakpointMarker ?c' = lastShadowBreakpointMarker c"
      using update_keeps_editor [of c] by simp
    have "shadowMarkers ?c' = shadowMarkers c"
      by (simp only: s2 s1 keep)
    then have t': "shadowTracked ?c'"
      using tracked by (simp add: shadowTracked_def l')
    have p': "decoration (heap ?c' ! m) \<noteq> Some Shadow_breakpoint_icon"
      if "m \<in> set (markers ?c')" for m
    proof (cases "m \<in> set ?kept")
      case True
      then have "m \<in> set (markers c)" using kept_sub by blast
      then show ?thesis
        using in_heap [of m] plain [of m] by (simp add: h' nth_append)
    next
      case False
      then have "length (heap c) \<le> m" "m < length (heap c) + length ?fl"
        using that by (auto simp: m')
      then show ?thesis
        by (simp add: update_new_marker [OF g p] committedMarker_def)
    qed
    show ?thesis
      using a' d' t' p' by (simp add: controllerInv_def list_all_iff)
  qed
qed

lemma removeLastShadowBreakpoint_frame:
  "markers (removeLastShadowBreakpoint c) = markers c \<and>
   length (heap (removeLastShadowBreakpoint c)) = length (heap c) \<and>
   (\<forall>i. decoration (heap (removeLastShadowBreakpoint c) ! i) = decoration (heap c ! i))"
proof (cases "lastShadowBreakpointMarker c")
  case None
  then show ?thesis by (simp add: removeLastShadowBreakpoint_def)
next
  case (Some m)
  have "decoration ((heap c)[m := (heap c ! m)\<lparr>isDestroyed := True\<rparr>] ! i) =
        decoration (heap c ! i)" for i
    by (cases "m < length (heap c)"; cases "i = m") (simp_all add: list_update_beyond)
  then show ?thesis
    using Some by (simp add: removeLastShadowBreakpoint_def markerDestroy_def emit_def)
qed

lemma createShadowBreakpointAtLine_frame:
  "markers (snd (createShadowBreakpointAtLine line c)) = markers c \<and>
   length (heap (snd (createShadowBreakpointAtLine line c))) = Suc (length (heap c)) \<and>
   (\<forall>i < length (heap c).
      decoration (heap (snd (createShadowBreakpointAtLine line c)) ! i) = decoration (heap c ! i))"
proof (cases "gutter c")
  case None
  then show ?thesis
    by (simp add: createShadowBreakpointAtLine_def createBreakpointMarkerAtLine_def
        markBufferPosition_def emit_def Let_def nth_append)
next
  case (Some g)
  then show ?thesis
    by (simp add: createShadowBreakpointAtLine_def createBreakpointMarkerAtLine_live [OF Some]
        nth_append)
qed

lemma handleGutterMouseMove_controllerInv:
  assumes "controllerInv c"
  shows "controllerInv (snd (handleGutterMouseMove event c))"
proof (cases "isLineOverLastShadowBreakpoint (getCurrentMouseEventLine event c) c")
  case True
  then show ?thesis using assms by (simp add: handleGutterMouseMove_def)
next
  case False
  let ?c1 = "removeLastShadowBreakpoint c"
  let ?c2 = "snd (createShadowBreakpointAtLine (getCurrentMouseEventLine event c) ?c1)"
  have eq: "snd (handleGutterMouseMove event c) = ?c2"
    using False by (simp add: handleGutterMouseMove_def Let_def)
  have t: "shadowTracked ?c2"
    using handleGutterMouseMove_tracked [of c event] assms
    by (simp add: eq controllerInv_def)
  show ?thesis
    unfolding eq
    using removeLastShadowBreakpoint_frame [of c]
      createShadowBreakpointAtLine_frame [of "getCurrentMouseEventLine event c" ?c1]
    by (intro controllerInv_frame [OF assms t]) simp_all
qed

lemma handleGutterMouseLeave_controllerInv:
  assumes "controllerInv c"
  shows "controllerInv (handleGutterMouseLeave event c)"
proof -
  have t: "shadowTracked (handleGutterMouseLeave event c)"
    using assms by (simp add: handleGutterMouseLeave_tracked controllerInv_def)
  show ?thesis
    using removeLastShadowBreakpoint_frame [of c]
    by (intro controllerInv_frame [OF assms t]) (simp_all add: handleGutterMouseLeave_def)
qed

lemma markerMovedTo_controllerInv:
  assumes "controllerInv c"
  shows "controllerInv (markerMovedTo m pos c)"
proof -
  have same: "decoration (heap (markerMovedTo m pos c) ! i) = decoration (heap c ! i) \<and>
              isDestroyed (heap (markerMovedTo m pos c) ! i) = isDestroyed (heap c ! i)" for i
    by (cases "m < length (heap c)"; cases "i = m")
       (simp_all add: markerMovedTo_def list_update_beyond)
  have "shadowMarkers (markerMovedTo m pos c) = shadowMarkers c"
    using same by (intro shadowMarkers_cong) (simp_all add: markerMovedTo_def)
  then have t: "shadowTracked (markerMovedTo m pos c)"
    using assms by (simp add: controllerInv_def shadowTracked_def markerMovedTo_def)
  show ?thesis
    using same by (intro controllerInv_frame [OF assms t]) (simp_all add: markerMovedTo_def)
qed

lemma newController_controllerInv:
  assumes "list_all (\<lambda>x. decoration x = None) editorMarkers"
  shows "controllerInv (snd (newController editorPath editorMarkers mouseToPosition breakpointStore))"
proof -
  have "filter (\<lambda>i. decoration (editorMarkers ! i) = Some Shadow_breakpoint_icon \<and>
                     \<not> isDestroyed (editorMarkers ! i)) [0..<length editorMarkers] = []"
    using assms by (simp add: filter_empty_conv list_all_iff)
  then show ?thesis
    unfolding newController_def
    by (intro update_controllerInv)
       (simp add: controllerInv_def markersAllocated_def shadowTracked_def shadowMarkers_def
          isShadowMarker_def [abs_def])
qed

lemma reachable_controllerInv: "reachable c \<Longrightarrow> controllerInv c"
proof (induction rule: reachable.induct)
  case (constructed editorMarkers editorPath mouseToPosition breakpointStore)
  from constructed.hyps show ?case by (rule newController_controllerInv)
next
  case (breakpointsChanged c path)
  from breakpointsChanged.IH show ?case
    by (simp add: handleBreakpointsChanged_def update_controllerInv)
next
  case (markerChanged c event)
  from markerChanged.IH show ?case
    by (rule controllerInv_same_markers)
       (simp_all add: handleMarkerChange_def emit_def split: option.splits)
next
  case (gutterClicked c mouse)
  from gutterClicked.IH show ?case
    by (rule controllerInv_same_markers)
       (simp_all add: handleGutterClick_def emit_def split: option.splits)
next
  case (mouseMoved c mouse)
  from mouseMoved.IH show ?case by (rule handleGutterMouseMove_controllerInv)
next
  case (mouseLeft c mouse)
  from mouseLeft.IH show ?case by (rule handleGutterMouseLeave_controllerInv)
next
  case (gutterDestroyed c)
  from gutterDestroyed.IH show ?case
    by (rule controllerInv_same_markers) (simp_all add: handleGutterDestroyed_def)
next
  case (textEditorDestroyed c)
  from textEditorDestroyed.IH show ?case
    by (rule controllerInv_same_markers) (simp_all add: handleTextEditorDestroyed_def emit_def)
next
  case (edited c m pos)
  from edited.IH show ?case by (rule markerMovedTo_controllerInv)
next
  case (storeChanged c s)
  from storeChanged.IH show ?case
    by (rule controllerInv_same_markers) (simp_all add: storeChangedTo_def)
next
  case (pathChanged c p)
  from pathChanged.IH show ?case
    by (rule controllerInv_same_markers) simp_all
qed

lemma lineJoinRun_reachable: "reachable lineJoinRun"
  unfolding lineJoinRun_def
  by (intro reachable.storeChanged reachable.markerChanged reachable.edited
        reachable.constructed) simp

lemma lineJoinRun_state:
  "lineJoinRun\<lparr>trace := []\<rparr> = editorAfterLineJoin \<and>
   newEffects (markerMovedTo 1 \<lparr>row = 3, column = 0\<rparr>
       (snd (newController (Some ''/a.js'') [] rowOfPointer (storeWith ''/a.js'' [3, 4]))))
     lineJoinRun = [DeleteBreakpoint ''/a.js'' 4, AddBreakpoint ''/a.js'' 3]"
  by (simp add: lineJoinRun_def newController_def storeChangedTo_def markerMovedTo_def
      handleMarkerChange_def newEffects_def example_defs method_defs)

subsection \<open>The scenarios of the specification\<close>

text \<open>
  Scenario A: the store holds rows 2, 5, 9; the constructor creates three markers at these
  rows and shows the gutter.
\<close>

lemma scenario_A:
  "markers (snd (newController (Some ''/a.js'') [] rowOfPointer (storeWith ''/a.js'' [2, 5, 9])))
     = [0, 1, 2] \<and>
   markerRows (snd (newController (Some ''/a.js'') [] rowOfPointer (storeWith ''/a.js'' [2, 5, 9])))
     = [2, 5, 9] \<and>
   map_option visible
     (gutter (snd (newController (Some ''/a.js'') [] rowOfPointer (storeWith ''/a.js'' [2, 5, 9]))))
     = Some True"
  by (simp add: newController_def markerRows_def example_defs method_defs)

text \<open>
  Scenario B: the breakpoint of row 5 is removed and the store notifies; the marker of row 5
  is destroyed and the markers of rows 2 and 9 stay the same instances.
\<close>

lemma scenario_B:
  "markers (snd (handleBreakpointsChanged ''/a.js'' (editorWith [2, 5, 9] [2, 9]))) = [0, 2] \<and>
   newEffects (editorWith [2, 5, 9] [2, 9])
       (snd (handleBreakpointsChanged ''/a.js'' (editorWith [2, 5, 9] [2, 9]))) =
     [StoreGetBreakpointsForPath ''/a.js'', StoreGetBreakpointLinesForPath ''/a.js'',
      MarkerDestroy 1, GutterShow]"
  by (simp add: handleBreakpointsChanged_def newEffects_def example_defs method_defs)

text \<open>
  Scenario C: a click at row 7 dispatches the toggle; once the store holds row 7 and
  notifies, a marker is created at row 7.
\<close>

lemma scenario_C:
  "newEffects (editorWith [2] [2]) (handleGutterClick (pointerAt 140) (editorWith [2] [2])) =
     [ToggleBreakpoint ''/a.js'' 7] \<and>
   markerRows (snd (handleBreakpointsChanged ''/a.js''
       (storeChangedTo (storeWith ''/a.js'' [2, 7])
          (handleGutterClick (pointerAt 140) (editorWith [2] [2]))))) = [2, 7]"
  by (simp add: handleBreakpointsChanged_def handleGutterClick_def getCurrentMouseEventLine_def
      storeChangedTo_def newEffects_def markerRows_def example_defs method_defs)

section \<open>The claims\<close>

subsection \<open>C1: one reconciliation pass\<close>

text \<open>
  C1 says that for every breakpoint row set \<open>B\<close> and every prior committed marker list
  \<open>M\<close>, every marker whose current row is in both \<open>M\<close> and \<open>B\<close> is kept. That fails
  when two markers of \<open>M\<close> sit at one row, which an edit joining two lines produces: the
  first loop removes a row from \<^verbatim>\<open>unhandledLines\<close> when it keeps a marker, so the second
  marker at that row is destroyed although its row is a breakpoint row. In
  \<open>editorAfterLineJoin\<close>, the state that \<open>lineJoinRun\<close> reaches, marker 1 sits at row 3,
  row 3 is the store's breakpoint row, and the pass destroys marker 1 and commits marker 0
  alone.
\<close>

theorem update_duplicate_row_counterexample:
  "markers editorAfterLineJoin = [0, 1] \<and>
   markerRow editorAfterLineJoin 1 = 3 \<and>
   getBreakpointsForPath (store editorAfterLineJoin) ''/a.js'' = [3] \<and>
   getBreakpointLinesForPath (store editorAfterLineJoin) ''/a.js'' = [3] \<and>
   markers (snd (update editorAfterLineJoin)) = [0] \<and>
   isDestroyed (heap (snd (update editorAfterLineJoin)) ! 1) \<and>
   MarkerDestroy 1 \<in> set (newEffects editorAfterLineJoin (snd (update editorAfterLineJoin)))"
  by (simp add: example_defs method_defs newEffects_def)

text \<open>
  C1, amended. Let the gutter reference be non-null and the editor have a path, so that the
  pass gets past its two guards; let the committed markers be distinct markers of the
  editor, and let the store's map and set for the path both hold the rows \<open>B\<close>. Then one
  pass of \<^verbatim>\<open>_update\<close> does not throw and commits a marker list whose rows are exactly
  \<open>B\<close>, one marker per row. For every row in both \<open>M\<close> and \<open>B\<close> the first marker of \<open>M\<close>
  at that row is kept as the identical instance: it is in the new list, its heap cell is
  unchanged, and the pass makes no destroy call on it. A marker of the new list that was
  not in \<open>M\<close> is a newly created one and sits at a row where \<open>M\<close> had no marker, so no
  row sees a destroy followed by a create. Every marker of \<open>M\<close> that is not kept has been
  destroyed.
\<close>

theorem update_reconciles:
  assumes "gutter c = Some g" and "getPath c = Some path"
    and "markersAllocated c" and "distinct (markers c)"
    and "distinct (getBreakpointsForPath (store c) path)"
    and "set (getBreakpointsForPath (store c) path) = B"
    and "set (getBreakpointLinesForPath (store c) path) = B"
  shows "fst (update c) = Inr () \<and>
         set (markerRows (snd (update c))) = B \<and>
         distinct (markerRows (snd (update c))) \<and>
         (\<forall>m \<in> set (markers c).
            markerRow c m \<in> B \<and> firstMarkerAtRow c (markerRow c m) = Some m \<longrightarrow>
              m \<in> set (markers (snd (update c))) \<and>
              heap (snd (update c)) ! m = heap c ! m \<and>
              MarkerDestroy m \<notin> set (newEffects c (snd (update c)))) \<and>
         (\<forall>m \<in> set (markers (snd (update c))).
            m \<notin> set (markers c) \<longrightarrow>
              length (heap c) \<le> m \<and> markerRow (snd (update c)) m \<notin> set (markerRows c)) \<and>
         (\<forall>m \<in> set (markers c).
            m \<notin> set (markers (snd (update c))) \<longrightarrow> isDestroyed (heap (snd (update c)) ! m))"
proof -
  let ?c' = "snd (update c)"
  let ?r = "markerRow c"
  let ?u = "getBreakpointLinesForPath (store c) path"
  let ?kept = "keptByUpdate c path"
  let ?ds = "droppedByUpdate c path"
  let ?fl = "linesToCreate c path"
  note g = assms(1) and p = assms(2)
  have alloc: "\<And>m. m \<in> set (markers c) \<Longrightarrow> m < length (heap c)"
    using assms(3) by (simp add: markersAllocated_def list_all_iff)
  have rows: "markerRows ?c' = map ?r ?kept @ ?fl"
    by (rule update_rows [OF g p assms(3)])
  have kept_rows: "?r ` set ?kept = set (markerRows c) \<inter> B"
    using assms(7) by (simp add: keptByUpdate_def keptMarkers_rows markerRows_def)
  have fl_set: "set ?fl = B - set (markerRows c)"
    using assms(6,7) by (simp add: set_linesToCreate)
  have kept_sub: "set ?kept \<subseteq> set (markers c)"
    by (simp add: keptByUpdate_def set_keptMarkers_subset)
  have disj: "set ?kept \<inter> set ?ds = {}"
    using assms(4) by (simp add: keptByUpdate_def droppedByUpdate_def kept_dropped_disjoint)
  have part: "set ?kept \<union> set ?ds = set (markers c)"
    by (simp add: keptByUpdate_def droppedByUpdate_def kept_dropped_partition)
  have c1: "fst (update c) = Inr ()"
    by (rule update_never_throws)
  have c2: "set (markerRows ?c') = B"
    using kept_rows fl_set by (auto simp: rows)
  have c3: "distinct (markerRows ?c')"
    using kept_rows fl_set assms(5)
    by (auto simp: rows keptByUpdate_def distinct_keptMarkers_rows linesToCreate_def)
  have c4: "m \<in> set (markers ?c') \<and> heap ?c' ! m = heap c ! m \<and>
            MarkerDestroy m \<notin> set (newEffects c ?c')"
    if m: "m \<in> set (markers c)" and inB: "markerRow c m \<in> B"
      and first: "firstMarkerAtRow c (markerRow c m) = Some m" for m
  proof -
    have k: "m \<in> set ?kept"
      using first inB assms(7)
      by (simp add: firstMarkerAtRow_def keptByUpdate_def keptMarkers_first)
    then have nd: "m \<notin> set ?ds" using disj by blast
    have "m \<in> set (markers ?c')" using k by (simp add: update_markers [OF g p])
    moreover have "heap ?c' ! m = heap c ! m"
      by (rule update_old_marker [OF g p alloc [OF m] nd])
    moreover have "MarkerDestroy m \<notin> set (newEffects c ?c')"
      using nd by (auto simp: update_newEffects [OF g p] createEffects_no_destroy)
    ultimately show ?thesis by blast
  qed
  have c5: "length (heap c) \<le> m \<and> markerRow ?c' m \<notin> set (markerRows c)"
    if m: "m \<in> set (markers ?c')" and new: "m \<notin> set (markers c)" for m
  proof -
    have range: "length (heap c) \<le> m" "m < length (heap c) + length ?fl"
      using m new kept_sub by (auto simp: update_markers [OF g p])
    then have "markerRow ?c' m = ?fl ! (m - length (heap c))"
      by (simp add: markerRow_def update_new_marker [OF g p range] committedMarker_def)
    moreover have "?fl ! (m - length (heap c)) \<in> set ?fl"
      using range by simp
    ultimately show ?thesis using range(1) fl_set by simp
  qed
  have c6: "isDestroyed (heap ?c' ! m)"
    if m: "m \<in> set (markers c)" and gone: "m \<notin> set (markers ?c')" for m
  proof -
    have "m \<notin> set ?kept" using gone by (simp add: update_markers [OF g p])
    then have "m \<in> set ?ds" using part m by blast
    then show ?thesis
      using alloc [OF m]
      by (simp add: update_heap [OF g p] nth_append destroyAll_destroyed)
  qed
  show ?thesis
    using c1 c2 c3 c4 c5 c6 by blast
qed

text \<open>
  The amended C1 at \<open>editorAfterStoreChange\<close>: markers 0, 1, 2 at rows 2, 5, 9 and the
  store at rows 2, 9, 7. The pass keeps markers 0 and 2, destroys marker 1 and creates
  marker 3 at row 7.
\<close>

theorem update_reconciles_witness:
  "gutter editorAfterStoreChange \<noteq> None \<and>
   getPath editorAfterStoreChange = Some ''/a.js'' \<and>
   markersAllocated editorAfterStoreChange \<and>
   distinct (markers editorAfterStoreChange) \<and>
   distinct (getBreakpointsForPath (store editorAfterStoreChange) ''/a.js'') \<and>
   set (getBreakpointsForPath (store editorAfterStoreChange) ''/a.js'') = {2, 7, 9} \<and>
   set (getBreakpointLinesForPath (store editorAfterStoreChange) ''/a.js'') = {2, 7, 9} \<and>
   set (markerRows (snd (update editorAfterStoreChange))) = {2, 7, 9} \<and>
   distinct (markerRows (snd (update editorAfterStoreChange))) \<and>
   0 \<in> set (markers editorAfterStoreChange) \<and>
   markerRow editorAfterStoreChange 0 = 2 \<and>
   firstMarkerAtRow editorAfterStoreChange 2 = Some 0 \<and>
   0 \<in> set (markers (snd (update editorAfterStoreChange))) \<and>
   heap (snd (update editorAfterStoreChange)) ! 0 = heap editorAfterStoreChange ! 0 \<and>
   MarkerDestroy 0 \<notin> set (newEffects editorAfterStoreChange (snd (update editorAfterStoreChange))) \<and>
   3 \<in> set (markers (snd (update editorAfterStoreChange))) \<and>
   3 \<notin> set (markers editorAfterStoreChange) \<and>
   markerRow (snd (update editorAfterStoreChange)) 3 \<notin> set (markerRows editorAfterStoreChange) \<and>
   1 \<in> set (markers editorAfterStoreChange) \<and>
   1 \<notin> set (markers (snd (update editorAfterStoreChange))) \<and>
   isDestroyed (heap (snd (update editorAfterStoreChange)) ! 1)"
proof -
  let ?c = editorAfterStoreChange
  let ?c' = "snd (update editorAfterStoreChange)"
  have g: "gutter ?c = Some \<lparr>name = ''nuclide-breakpoint'', visible = True, priority = - 1100,
                     gutterDestroyed = False\<rparr>"
    and p: "getPath ?c = Some ''/a.js''"
    and a: "markersAllocated ?c"
    and d: "distinct (markers ?c)"
    and db: "distinct (getBreakpointsForPath (store ?c) ''/a.js'')"
    and sb: "set (getBreakpointsForPath (store ?c) ''/a.js'') = {2, 7, 9}"
    and sl: "set (getBreakpointLinesForPath (store ?c) ''/a.js'') = {2, 7, 9}"
    by (auto simp add: example_defs markersAllocated_def)
  have m0: "0 \<in> set (markers ?c)" "markerRow ?c 0 = 2" "firstMarkerAtRow ?c 2 = Some 0"
    by (simp_all add: example_defs markerRow_def firstMarkerAtRow_def)
  have old: "markers ?c = [0, 1, 2]"
    by (simp add: example_defs)
  have new: "markers ?c' = [0, 2, 3]"
    by (simp add: example_defs method_defs)
  have m3: "3 \<in> set (markers ?c')" "3 \<notin> set (markers ?c)"
    and m1: "1 \<in> set (markers ?c)" "1 \<notin> set (markers ?c')"
    by (simp_all add: old new)
  note T = update_reconciles [OF g p a d db sb sl]
  note T2 = T [THEN conjunct2, THEN conjunct1]
  note T3 = T [THEN conjunct2, THEN conjunct2, THEN conjunct1]
  note T4 = T [THEN conjunct2, THEN conjunct2, THEN conjunct2, THEN conjunct1, THEN bspec,
              OF m0(1), THEN mp]
  note T5 = T [THEN conjunct2, THEN conjunct2, THEN conjunct2, THEN conjunct2, THEN conjunct1,
              THEN bspec, OF m3(1), THEN mp, OF m3(2), THEN conjunct2]
  note T6 = T [THEN conjunct2, THEN conjunct2, THEN conjunct2, THEN conjunct2, THEN conjunct2,
              THEN bspec, OF m1(1), THEN mp, OF m1(2)]
  have t4: "0 \<in> set (markers ?c') \<and> heap ?c' ! 0 = heap ?c ! 0 \<and>
              MarkerDestroy 0 \<notin> set (newEffects ?c ?c')"
    by (rule T4) (simp add: m0)
  note t4a = t4 [THEN conjunct1] and t4b = t4 [THEN conjunct2, THEN conjunct1]
    and t4c = t4 [THEN conjunct2, THEN conjunct2]
  have g': "gutter ?c \<noteq> None" by (simp add: g)
  show ?thesis
    by (intro conjI) (rule g' p a d db sb sl m0 m3 m1 T2 T3 t4a t4b t4c T5 T6)+
qed

subsection \<open>C6: reconciling twice\<close>

text \<open>
  C6: running \<^verbatim>\<open>_update\<close> a second time, with the store and the marker rows as the
  first pass left them, does not throw, creates no marker and destroys none; the committed
  marker list and the heap of markers are the same after the second pass as after the
  first. This holds from every state whose committed markers are markers of the editor
  and whose store answers its two queries consistently; when a guard stops the passes
  (no gutter or no path) both passes do nothing.
\<close>

theorem update_idempotent:
  assumes "markersAllocated c" and "storeAgrees c"
  shows "fst (update (snd (update c))) = Inr () \<and>
         markers (snd (update (snd (update c)))) = markers (snd (update c)) \<and>
         heap (snd (update (snd (update c)))) = heap (snd (update c)) \<and>
         filter isMarkBufferPosition
           (newEffects (snd (update c)) (snd (update (snd (update c))))) = [] \<and>
         filter isMarkerDestroy
           (newEffects (snd (update c)) (snd (update (snd (update c))))) = []"
proof (cases "gutter c")
  case None
  then show ?thesis by (simp add: update_def newEffects_def)
next
  case (Some g)
  note g = this
  show ?thesis
  proof (cases "getPath c")
    case None
    then show ?thesis using g by (simp add: update_def newEffects_def)
  next
    case (Some path)
    note p = this
    let ?c1 = "snd (update c)"
    have agree: "distinct (getBreakpointsForPath (store c) path)"
      "set (getBreakpointLinesForPath (store c) path) = set (getBreakpointsForPath (store c) path)"
      using assms(2) p by (simp_all add: storeAgrees_def)
    have g1: "gutter ?c1 = Some (g\<lparr>visible := True\<rparr>)"
      by (simp add: update_closed [OF g p])
    have p1: "getPath ?c1 = Some path"
      using update_keeps_editor [of c] p by simp
    have s1: "store ?c1 = store c"
      using update_keeps_editor [of c] by simp
    have d1: "distinct (markerRows ?c1)"
      by (rule update_result_rows(1) [OF g p assms(1) agree])
    have r1: "set (markerRows ?c1) = set (getBreakpointLinesForPath (store ?c1) path)"
      using update_result_rows(2) [OF g p assms(1) agree] agree(2) by (simp add: s1)
    have a1: "set (getBreakpointsForPath (store ?c1) path) =
              set (getBreakpointLinesForPath (store ?c1) path)"
      using agree(2) by (simp add: s1)
    show ?thesis
      using update_fixpoint [OF g1 p1 d1 r1 a1] update_never_throws [of ?c1] by simp
  qed
qed

text \<open>C6 at \<open>editorAfterStoreChange\<close>, where the first pass commits markers 0, 2 and 3.\<close>

theorem update_idempotent_witness:
  "markersAllocated editorAfterStoreChange \<and> storeAgrees editorAfterStoreChange \<and>
   markers (snd (update editorAfterStoreChange)) = [0, 2, 3] \<and>
   markers (snd (update (snd (update editorAfterStoreChange)))) =
     markers (snd (update editorAfterStoreChange)) \<and>
   heap (snd (update (snd (update editorAfterStoreChange)))) =
     heap (snd (update editorAfterStoreChange)) \<and>
   filter isMarkBufferPosition (newEffects (snd (update editorAfterStoreChange))
      (snd (update (snd (update editorAfterStoreChange))))) = [] \<and>
   filter isMarkerDestroy (newEffects (snd (update editorAfterStoreChange))
      (snd (update (snd (update editorAfterStoreChange))))) = []"
proof -
  have a: "markersAllocated editorAfterStoreChange" and s: "storeAgrees editorAfterStoreChange"
    by (auto simp add: example_defs markersAllocated_def storeAgrees_def)
  have m: "markers (snd (update editorAfterStoreChange)) = [0, 2, 3]"
    by (simp add: example_defs method_defs)
  note T = update_idempotent [OF a s, THEN conjunct2]
  show ?thesis
    by (intro conjI) (rule a s m T [THEN conjunct1] T [THEN conjunct2, THEN conjunct1]
        T [THEN conjunct2, THEN conjunct2, THEN conjunct1]
        T [THEN conjunct2, THEN conjunct2, THEN conjunct2])+
qed

subsection \<open>C3, C10: marker-change events of a marker that stays valid\<close>

text \<open>
  C3: when the editor has a path (one that \<^verbatim>\<open>!path\<close> does not reject, so not the empty
  string), a change event of a marker that stays valid and whose head row changed from
  \<open>oldRow\<close> to \<open>newRow\<close> makes the handler dispatch exactly
  \<^verbatim>\<open>deleteBreakpoint(path, oldRow)\<close> and then \<^verbatim>\<open>addBreakpoint(path, newRow)\<close>, and
  nothing else.
\<close>

theorem handleMarkerChange_moved:
  assumes "getPath c = Some path" and "path \<noteq> []" and "isValid event"
    and "row (oldHeadBufferPosition event) = oldRow"
    and "row (newHeadBufferPosition event) = newRow"
    and "oldRow \<noteq> newRow"
  shows "handleMarkerChange event c =
           c\<lparr>trace := trace c @ [DeleteBreakpoint path oldRow, AddBreakpoint path newRow]\<rparr>"
  using assms by (simp add: handleMarkerChange_def emit_def)

text \<open>C3 for an edit that shifts a marker from row 3 to row 5.\<close>

theorem handleMarkerChange_moved_witness:
  "getPath editorAfterStoreChange = Some ''/a.js'' \<and> ''/a.js'' \<noteq> [] \<and> (3::nat) \<noteq> 5 \<and>
   handleMarkerChange
       \<lparr>isValid = True, oldHeadBufferPosition = \<lparr>row = 3, column = 0\<rparr>,
        newHeadBufferPosition = \<lparr>row = 5, column = 0\<rparr>\<rparr> editorAfterStoreChange =
     editorAfterStoreChange
       \<lparr>trace := trace editorAfterStoreChange @
          [DeleteBreakpoint ''/a.js'' 3, AddBreakpoint ''/a.js'' 5]\<rparr>"
proof -
  have p: "getPath editorAfterStoreChange = Some ''/a.js''"
    by (simp add: example_defs)
  show ?thesis
    using p handleMarkerChange_moved [OF p, of
        "\<lparr>isValid = True, oldHeadBufferPosition = \<lparr>row = 3, column = 0\<rparr>,
          newHeadBufferPosition = \<lparr>row = 5, column = 0\<rparr>\<rparr>" 3 5]
    by simp
qed

text \<open>
  C10: a change event of a marker that stays valid and whose old head row equals its new
  head row makes the handler dispatch nothing; the whole state, trace included, is as
  before.
\<close>

theorem handleMarkerChange_same_row:
  assumes "isValid event"
    and "row (oldHeadBufferPosition event) = row (newHeadBufferPosition event)"
  shows "handleMarkerChange event c = c"
  using assms by (simp add: handleMarkerChange_def split: option.splits)

text \<open>C10 for an edit that moves a marker within row 4.\<close>

theorem handleMarkerChange_same_row_witness:
  "isValid \<lparr>isValid = True, oldHeadBufferPosition = \<lparr>row = 4, column = 0\<rparr>,
            newHeadBufferPosition = \<lparr>row = 4, column = 6\<rparr>\<rparr> \<and>
   handleMarkerChange
       \<lparr>isValid = True, oldHeadBufferPosition = \<lparr>row = 4, column = 0\<rparr>,
        newHeadBufferPosition = \<lparr>row = 4, column = 6\<rparr>\<rparr> editorAfterStoreChange =
     editorAfterStoreChange"
  using handleMarkerChange_same_row [of
        "\<lparr>isValid = True, oldHeadBufferPosition = \<lparr>row = 4, column = 0\<rparr>,
          newHeadBufferPosition = \<lparr>row = 4, column = 6\<rparr>\<rparr>" editorAfterStoreChange]
  by simp

subsection \<open>C8: an editor without a path\<close>

text \<open>
  C8: when \<^verbatim>\<open>getPath()\<close> returns null, a reconciliation pass, a gutter click and a
  marker-change event each leave the state as it is: the trace gets no store query and no
  dispatch, and no marker is touched.
\<close>

theorem no_path_skips_store:
  assumes "getPath c = None"
  shows "update c = (Inr (), c) \<and> handleGutterClick click c = c \<and>
         handleMarkerChange event c = c"
  using assms
  by (simp add: update_def handleGutterClick_def handleMarkerChange_def split: option.splits)

text \<open>C8 at an unsaved buffer that still shows three markers.\<close>

theorem no_path_skips_store_witness:
  "getPath (editorAfterStoreChange\<lparr>getPath := None\<rparr>) = None \<and>
   update (editorAfterStoreChange\<lparr>getPath := None\<rparr>) =
     (Inr (), editorAfterStoreChange\<lparr>getPath := None\<rparr>) \<and>
   handleGutterClick (pointerAt 140) (editorAfterStoreChange\<lparr>getPath := None\<rparr>) =
     editorAfterStoreChange\<lparr>getPath := None\<rparr> \<and>
   handleMarkerChange
       \<lparr>isValid = False, oldHeadBufferPosition = \<lparr>row = 4, column = 0\<rparr>,
        newHeadBufferPosition = \<lparr>row = 4, column = 0\<rparr>\<rparr>
       (editorAfterStoreChange\<lparr>getPath := None\<rparr>) =
     editorAfterStoreChange\<lparr>getPath := None\<rparr>"
  using no_path_skips_store [of "editorAfterStoreChange\<lparr>getPath := None\<rparr>" "pointerAt 140"
        "\<lparr>isValid = False, oldHeadBufferPosition = \<lparr>row = 4, column = 0\<rparr>,
          newHeadBufferPosition = \<lparr>row = 4, column = 0\<rparr>\<rparr>"]
  by simp

subsection \<open>C9: gutter clicks\<close>

text \<open>
  C9: a click whose target carries the class \<^verbatim>\<open>icon-right\<close> is ignored. Any other click,
  when the editor has a path (one that \<^verbatim>\<open>!path\<close> does not reject), dispatches exactly one
  \<^verbatim>\<open>toggleBreakpoint(path, R)\<close>, \<open>R\<close> being the row of the position that
  \<^verbatim>\<open>bufferPositionForMouseEvent\<close> returns for the event, and changes nothing else.
\<close>

theorem handleGutterClick_toggle:
  "(''icon-right'' \<in> set (targetClassList event) \<longrightarrow> handleGutterClick event c = c) \<and>
   (''icon-right'' \<notin> set (targetClassList event) \<and> getPath c = Some path \<and> path \<noteq> [] \<longrightarrow>
      handleGutterClick event c =
        c\<lparr>trace := trace c @
             [ToggleBreakpoint path (row (bufferPositionForMouseEvent c event))]\<rparr>)"
  by (simp add: handleGutterClick_def emit_def getCurrentMouseEventLine_def)

text \<open>C9 for a click on the inline icon and for a click at row 7.\<close>

theorem handleGutterClick_toggle_witness:
  "''icon-right'' \<in> set (targetClassList ((pointerAt 140)\<lparr>targetClassList := [''icon'', ''icon-right'']\<rparr>)) \<and>
   handleGutterClick ((pointerAt 140)\<lparr>targetClassList := [''icon'', ''icon-right'']\<rparr>)
       editorAfterStoreChange = editorAfterStoreChange \<and>
   ''icon-right'' \<notin> set (targetClassList (pointerAt 140)) \<and>
   getPath editorAfterStoreChange = Some ''/a.js'' \<and> ''/a.js'' \<noteq> [] \<and>
   handleGutterClick (pointerAt 140) editorAfterStoreChange =
     editorAfterStoreChange
       \<lparr>trace := trace editorAfterStoreChange @ [ToggleBreakpoint ''/a.js'' 7]\<rparr>"
proof -
  have p: "getPath editorAfterStoreChange = Some ''/a.js''"
    and r: "row (bufferPositionForMouseEvent editorAfterStoreChange (pointerAt 140)) = 7"
    by (simp_all add: example_defs)
  have i: "''icon-right'' \<in> set (targetClassList ((pointerAt 140)\<lparr>targetClassList := [''icon'', ''icon-right'']\<rparr>))"
    and n: "''icon-right'' \<notin> set (targetClassList (pointerAt 140))"
    by (simp_all add: pointerAt_def)
  show ?thesis
    using p i n
      handleGutterClick_toggle [of "(pointerAt 140)\<lparr>targetClassList := [''icon'', ''icon-right'']\<rparr>"
        editorAfterStoreChange "''/a.js''"]
      handleGutterClick_toggle [of "pointerAt 140" editorAfterStoreChange "''/a.js''"]
    by (simp add: r)
qed

subsection \<open>C2: invalidation of committed markers\<close>

text \<open>
  C2 says that every committed marker is created so that it is flagged invalid when the
  text spanning it is deleted. The controller creates every marker with the option
  \<^verbatim>\<open>invalidate: 'never'\<close>, under which the editor never marks a marker invalid. In
  \<open>editorOneBreakpoint\<close> the pass commits marker 0 for the breakpoint of row 4, and the
  marker carries the strategy \<open>Never\<close>.
\<close>

theorem created_marker_never_invalidated_counterexample:
  "markers editorOneBreakpoint = [] \<and>
   getBreakpointsForPath (store editorOneBreakpoint) ''/a.js'' = [4] \<and>
   markers (snd (update editorOneBreakpoint)) = [0] \<and>
   markerRow (snd (update editorOneBreakpoint)) 0 = 4 \<and>
   invalidateOption (heap (snd (update editorOneBreakpoint)) ! 0) = Never \<and>
   \<not> invalidatedWhenSurrounded (invalidateOption (heap (snd (update editorOneBreakpoint)) ! 0))"
  by (simp add: editorOneBreakpoint_def example_defs method_defs invalidatedWhenSurrounded_def)

text \<open>
  C2, amended. Every committed marker that a pass creates carries the invalidation
  strategy \<^verbatim>\<open>'never'\<close>, so no edit flags it invalid, not even the deletion of the text
  spanning it. When a change event nevertheless reports a marker as not valid and the
  editor has a path (one that \<^verbatim>\<open>!path\<close> does not reject), the handler dispatches exactly
  one \<^verbatim>\<open>deleteBreakpoint\<close> for that path and no \<^verbatim>\<open>addBreakpoint\<close>; when the event's
  old and new head rows are the same row, that row is the one deleted. Which row is
  deleted when the event reports a move as well is not part of the statement.
\<close>

theorem committed_markers_never_invalidate:
  "(gutter c \<noteq> None \<and> getPath c \<noteq> None \<and> markersAllocated c \<longrightarrow>
      (\<forall>m \<in> set (markers (snd (update c))).
         length (heap c) \<le> m \<longrightarrow>
           invalidateOption (heap (snd (update c)) ! m) = Never \<and>
           \<not> invalidatedWhenSurrounded (invalidateOption (heap (snd (update c)) ! m)))) \<and>
   (getPath c = Some path \<and> path \<noteq> [] \<and> \<not> isValid event \<longrightarrow>
      (\<exists>line. handleMarkerChange event c =
                c\<lparr>trace := trace c @ [DeleteBreakpoint path line]\<rparr>) \<and>
      (row (oldHeadBufferPosition event) = row (newHeadBufferPosition event) \<longrightarrow>
         handleMarkerChange event c =
           c\<lparr>trace := trace c @
                [DeleteBreakpoint path (row (oldHeadBufferPosition event))]\<rparr>))"
proof -
  have "invalidateOption (heap (snd (update c)) ! m) = Never"
    if m: "m \<in> set (markers (snd (update c)))" and g: "gutter c \<noteq> None"
      and p: "getPath c \<noteq> None" and a: "markersAllocated c" and new: "length (heap c) \<le> m" for m
  proof -
    from g p obtain gt p0 where gp: "gutter c = Some gt" "getPath c = Some p0" by blast
    have "m \<notin> set (keptByUpdate c p0)"
      using keptByUpdate_allocated [OF a, of m p0] new by auto
    then have "m < length (heap c) + length (linesToCreate c p0)"
      using m by (auto simp: update_markers [OF gp])
    then show ?thesis
      by (simp add: update_new_marker [OF gp new] committedMarker_def)
  qed
  then have created: "gutter c \<noteq> None \<and> getPath c \<noteq> None \<and> markersAllocated c \<longrightarrow>
      (\<forall>m \<in> set (markers (snd (update c))).
         length (heap c) \<le> m \<longrightarrow>
           invalidateOption (heap (snd (update c)) ! m) = Never \<and>
           \<not> invalidatedWhenSurrounded (invalidateOption (heap (snd (update c)) ! m)))"
    by (simp add: invalidatedWhenSurrounded_def)
  have "getPath c = Some path \<and> path \<noteq> [] \<and> \<not> isValid event \<longrightarrow>
      (\<exists>line. handleMarkerChange event c =
                c\<lparr>trace := trace c @ [DeleteBreakpoint path line]\<rparr>) \<and>
      (row (oldHeadBufferPosition event) = row (newHeadBufferPosition event) \<longrightarrow>
         handleMarkerChange event c =
           c\<lparr>trace := trace c @
                [DeleteBreakpoint path (row (oldHeadBufferPosition event))]\<rparr>)"
    by (auto simp add: handleMarkerChange_def emit_def)
  with created show ?thesis by (rule conjI)
qed

text \<open>
  The amended C2 at \<open>editorOneBreakpoint\<close>: for an event that reports the marker of row 4
  as not valid where it is, and for one that reports it as not valid and moved from row 4
  to row 3.
\<close>

theorem committed_markers_never_invalidate_witness:
  "gutter editorOneBreakpoint \<noteq> None \<and> getPath editorOneBreakpoint \<noteq> None \<and>
   markersAllocated editorOneBreakpoint \<and>
   0 \<in> set (markers (snd (update editorOneBreakpoint))) \<and>
   length (heap editorOneBreakpoint) \<le> 0 \<and>
   invalidateOption (heap (snd (update editorOneBreakpoint)) ! 0) = Never \<and>
   getPath editorOneBreakpoint = Some ''/a.js'' \<and> ''/a.js'' \<noteq> [] \<and>
   \<not> isValid \<lparr>isValid = False, oldHeadBufferPosition = \<lparr>row = 4, column = 0\<rparr>,
               newHeadBufferPosition = \<lparr>row = 4, column = 0\<rparr>\<rparr> \<and>
   handleMarkerChange
       \<lparr>isValid = False, oldHeadBufferPosition = \<lparr>row = 4, column = 0\<rparr>,
        newHeadBufferPosition = \<lparr>row = 4, column = 0\<rparr>\<rparr> editorOneBreakpoint =
     editorOneBreakpoint
       \<lparr>trace := trace editorOneBreakpoint @ [DeleteBreakpoint ''/a.js'' 4]\<rparr> \<and>
   \<not> isValid \<lparr>isValid = False, oldHeadBufferPosition = \<lparr>row = 4, column = 0\<rparr>,
               newHeadBufferPosition = \<lparr>row = 3, column = 0\<rparr>\<rparr> \<and>
   (\<exists>line. handleMarkerChange
       \<lparr>isValid = False, oldHeadBufferPosition = \<lparr>row = 4, column = 0\<rparr>,
        newHeadBufferPosition = \<lparr>row = 3, column = 0\<rparr>\<rparr> editorOneBreakpoint =
     editorOneBreakpoint
       \<lparr>trace := trace editorOneBreakpoint @ [DeleteBreakpoint ''/a.js'' line]\<rparr>)"
proof -
  let ?c = editorOneBreakpoint
  let ?e = "\<lparr>isValid = False, oldHeadBufferPosition = \<lparr>row = 4, column = 0\<rparr>,
        newHeadBufferPosition = \<lparr>row = 4, column = 0\<rparr>\<rparr>"
  let ?e' = "\<lparr>isValid = False, oldHeadBufferPosition = \<lparr>row = 4, column = 0\<rparr>,
        newHeadBufferPosition = \<lparr>row = 3, column = 0\<rparr>\<rparr>"
  have g: "gutter ?c \<noteq> None" and p: "getPath ?c \<noteq> None" and a: "markersAllocated ?c"
    and h: "length (heap ?c) \<le> 0" and p': "getPath ?c = Some ''/a.js''"
    by (simp_all add: editorOneBreakpoint_def example_defs markersAllocated_def)
  have m: "0 \<in> set (markers (snd (update ?c)))"
    by (simp add: editorOneBreakpoint_def example_defs method_defs)
  have n: "''/a.js'' \<noteq> []" and v: "\<not> isValid ?e" and v': "\<not> isValid ?e'" by simp_all
  have same: "row (oldHeadBufferPosition ?e) = row (newHeadBufferPosition ?e)" by simp
  note T = committed_markers_never_invalidate [of ?c "''/a.js''" ?e]
  note T' = committed_markers_never_invalidate [of ?c "''/a.js''" ?e']
  note T1 = T [THEN conjunct1, THEN mp, OF conjI [OF g conjI [OF p a]], THEN bspec, OF m,
      THEN mp, OF h, THEN conjunct1]
  note T2 = T [THEN conjunct2, THEN mp, OF conjI [OF p' conjI [OF n v]], THEN conjunct2,
      THEN mp, OF same]
  note T3 = T' [THEN conjunct2, THEN mp, OF conjI [OF p' conjI [OF n v']], THEN conjunct1]
  have t2: "handleMarkerChange ?e ?c = ?c\<lparr>trace := trace ?c @ [DeleteBreakpoint ''/a.js'' 4]\<rparr>"
    using T2 by simp
  show ?thesis
    by (intro conjI) (rule g p a m h T1 p' n v t2 v' T3)+
qed

subsection \<open>C4: the shadow marker under pointer events\<close>

text \<open>
  C4. From a state in which the shadow marker the controller refers to is the only one
  there is, after every prefix of every sequence of pointer-move and pointer-leave events
  at most one shadow marker exists. A pointer-move to the row of the current shadow marker
  returns without any change. With a gutter and no shadow marker at the start, a sequence
  of pointer-moves that enters \<open>N\<close> rows one after the other (moves that stay on a row
  counted once) makes exactly \<open>N\<close> marker creations, each decorated as a shadow marker,
  and \<open>N - 1\<close> marker destructions; in particular so do \<open>N\<close> moves to pairwise distinct
  rows.
\<close>

theorem hover_shadow_marker:
  assumes "shadowTracked c"
  shows "(\<forall>n. length (shadowMarkers (handlePointerEvents (take n events) c)) \<le> 1) \<and>
     (isLineOverLastShadowBreakpoint (getCurrentMouseEventLine event c) c \<longrightarrow>
        handleGutterMouseMove event c = (Inr (), c)) \<and>
     (gutter c \<noteq> None \<and> lastShadowBreakpointMarker c = None \<longrightarrow>
        markerCreations (handlePointerEvents (map MouseMove moves) c) =
          markerCreations c + length (remdups_adj (pointerRows c moves)) \<and>
        shadowDecorations (handlePointerEvents (map MouseMove moves) c) =
          shadowDecorations c + length (remdups_adj (pointerRows c moves)) \<and>
        markerDestructions (handlePointerEvents (map MouseMove moves) c) =
          markerDestructions c + (length (remdups_adj (pointerRows c moves)) - 1)) \<and>
     (gutter c \<noteq> None \<and> lastShadowBreakpointMarker c = None \<and>
      distinct (pointerRows c moves) \<longrightarrow>
        markerCreations (handlePointerEvents (map MouseMove moves) c) =
          markerCreations c + length moves \<and>
        shadowDecorations (handlePointerEvents (map MouseMove moves) c) =
          shadowDecorations c + length moves \<and>
        markerDestructions (handlePointerEvents (map MouseMove moves) c) =
          markerDestructions c + (length moves - 1))"
proof -
  have one: "\<forall>n. length (shadowMarkers (handlePointerEvents (take n events) c)) \<le> 1"
    using assms by (intro allI shadowTracked_at_most_one handlePointerEvents_tracked)
  have same: "isLineOverLastShadowBreakpoint (getCurrentMouseEventLine event c) c \<longrightarrow>
        handleGutterMouseMove event c = (Inr (), c)"
    by (simp add: handleGutterMouseMove_same_row)
  have count: "markerCreations (handlePointerEvents (map MouseMove moves) c) =
          markerCreations c + length (remdups_adj (pointerRows c moves)) \<and>
        shadowDecorations (handlePointerEvents (map MouseMove moves) c) =
          shadowDecorations c + length (remdups_adj (pointerRows c moves)) \<and>
        markerDestructions (handlePointerEvents (map MouseMove moves) c) =
          markerDestructions c + (length (remdups_adj (pointerRows c moves)) - 1)"
    if "gutter c \<noteq> None" and "lastShadowBreakpointMarker c = None"
  proof -
    from that(1) obtain g where "gutter c = Some g" by blast
    from moves_count [OF this, of moves] that(2) show ?thesis by simp
  qed
  have "remdups_adj (pointerRows c moves) = pointerRows c moves"
    if "distinct (pointerRows c moves)"
    using that by (rule remdups_adj_distinct)
  moreover have "length (pointerRows c moves) = length moves"
    by (simp add: pointerRows_def)
  ultimately show ?thesis
    using one same count by metis
qed

text \<open>
  C4 at \<open>editorAfterStoreChange\<close>: the pointer moves over rows 2, 2, 3, 6, which are three
  rows entered, and over the distinct rows 2, 3, 6; and at \<open>editorHovering\<close>, where a
  further move within row 4 changes nothing.
\<close>

theorem hover_shadow_marker_witness:
  "shadowTracked editorAfterStoreChange \<and>
   length (shadowMarkers (handlePointerEvents
      [MouseMove (pointerAt 45), MouseLeave (pointerAt 45), MouseMove (pointerAt 70)]
      editorAfterStoreChange)) \<le> 1 \<and>
   gutter editorAfterStoreChange \<noteq> None \<and>
   lastShadowBreakpointMarker editorAfterStoreChange = None \<and>
   pointerRows editorAfterStoreChange
      [pointerAt 45, pointerAt 50, pointerAt 70, pointerAt 130] = [2, 2, 3, 6] \<and>
   markerCreations (handlePointerEvents
      (map MouseMove [pointerAt 45, pointerAt 50, pointerAt 70, pointerAt 130])
      editorAfterStoreChange) = 3 \<and>
   markerDestructions (handlePointerEvents
      (map MouseMove [pointerAt 45, pointerAt 50, pointerAt 70, pointerAt 130])
      editorAfterStoreChange) = 2 \<and>
   distinct (pointerRows editorAfterStoreChange [pointerAt 45, pointerAt 70, pointerAt 130]) \<and>
   markerCreations (handlePointerEvents
      (map MouseMove [pointerAt 45, pointerAt 70, pointerAt 130]) editorAfterStoreChange) = 3 \<and>
   markerDestructions (handlePointerEvents
      (map MouseMove [pointerAt 45, pointerAt 70, pointerAt 130]) editorAfterStoreChange) = 2 \<and>
   shadowTracked editorHovering \<and>
   isLineOverLastShadowBreakpoint (getCurrentMouseEventLine (pointerAt 85) editorHovering)
      editorHovering \<and>
   handleGutterMouseMove (pointerAt 85) editorHovering = (Inr (), editorHovering)"
proof -
  let ?c = editorAfterStoreChange
  let ?es = "[MouseMove (pointerAt 45), MouseLeave (pointerAt 45), MouseMove (pointerAt 70)]"
  let ?m4 = "[pointerAt 45, pointerAt 50, pointerAt 70, pointerAt 130]"
  let ?m3 = "[pointerAt 45, pointerAt 70, pointerAt 130]"
  have t: "shadowTracked ?c"
    by (simp add: shadowTracked_def shadowMarkers_def isShadowMarker_def example_defs)
  have g: "gutter ?c \<noteq> None" and l: "lastShadowBreakpointMarker ?c = None"
    and z: "markerCreations ?c = 0" "markerDestructions ?c = 0"
    by (simp_all add: example_defs markerCreations_def markerDestructions_def)
  have r4: "pointerRows ?c ?m4 = [2, 2, 3, 6]" and r3: "pointerRows ?c ?m3 = [2, 3, 6]"
    by (simp_all add: pointerRows_def getCurrentMouseEventLine_def example_defs)
  have d3: "distinct (pointerRows ?c ?m3)"
    by (simp add: r3)
  have th: "shadowTracked editorHovering"
    unfolding editorHovering_def by (rule handleGutterMouseMove_tracked [OF t])
  have over: "isLineOverLastShadowBreakpoint (getCurrentMouseEventLine (pointerAt 85) editorHovering)
      editorHovering"
    by (simp add: editorHovering_eval isLineOverLastShadowBreakpoint_def
        getCurrentMouseEventLine_def markerRow_def example_defs)
  note A = hover_shadow_marker [OF t, of ?es "pointerAt 85" ?m4]
  note B = hover_shadow_marker [OF t, of ?es "pointerAt 85" ?m3]
  note C = hover_shadow_marker [OF th, of ?es "pointerAt 85" ?m3]
  have one: "length (shadowMarkers (handlePointerEvents ?es ?c)) \<le> 1"
    using A [THEN conjunct1, THEN spec, of 3] by simp
  note A3 = A [THEN conjunct2, THEN conjunct2, THEN conjunct1, THEN mp, OF conjI [OF g l]]
  have c4: "markerCreations (handlePointerEvents (map MouseMove ?m4) ?c) = 3"
    and d4: "markerDestructions (handlePointerEvents (map MouseMove ?m4) ?c) = 2"
    using A3 by (simp_all add: r4 z)
  note B4 = B [THEN conjunct2, THEN conjunct2, THEN conjunct2, THEN mp,
      OF conjI [OF g conjI [OF l d3]]]
  have c3: "markerCreations (handlePointerEvents (map MouseMove ?m3) ?c) = 3"
    and d3': "markerDestructions (handlePointerEvents (map MouseMove ?m3) ?c) = 2"
    using B4 by (simp_all add: z)
  note C2 = C [THEN conjunct2, THEN conjunct1, THEN mp, OF over]
  show ?thesis
    by (intro conjI) (rule t one g l r4 c4 d4 d3 c3 d3' th over C2)+
qed

subsection \<open>C5: disposal\<close>

text \<open>
  C5 says that disposal destroys every committed marker, the shadow marker if one is
  present, and the gutter if the reference is non-null. \<^verbatim>\<open>dispose\<close> makes no call on
  \<^verbatim>\<open>_lastShadowBreakpointMarker\<close>. In \<open>editorHovering\<close> the committed markers are 0, 1, 2
  and the shadow marker is 3: disposal destroys 0, 1, 2 and the gutter, and marker 3 is
  left in the editor, not destroyed, the controller still referring to it.
\<close>

theorem dispose_leaves_shadow_marker:
  "markers editorHovering = [0, 1, 2] \<and>
   lastShadowBreakpointMarker editorHovering = Some 3 \<and>
   isShadowMarker editorHovering 3 \<and>
   newEffects editorHovering (dispose editorHovering) =
     [DisposablesDispose, MarkerDestroy 0, MarkerDestroy 1, MarkerDestroy 2, GutterDestroy] \<and>
   isDestroyed (heap (dispose editorHovering) ! 0) \<and>
   isDestroyed (heap (dispose editorHovering) ! 1) \<and>
   isDestroyed (heap (dispose editorHovering) ! 2) \<and>
   \<not> isDestroyed (heap (dispose editorHovering) ! 3) \<and>
   isShadowMarker (dispose editorHovering) 3 \<and>
   lastShadowBreakpointMarker (dispose editorHovering) = Some 3"
  by (simp add: editorHovering_eval dispose_closed destroyAll_def newEffects_def
      isShadowMarker_def example_defs)

subsection \<open>C7: operations on a void gutter\<close>

text \<open>
  C7 says that with the gutter reference void a reconciliation pass and the creation of a
  shadow marker on hover both silently do nothing. The pass does: \<^verbatim>\<open>_update\<close> returns at
  its first guard. The hover does not: \<^verbatim>\<open>_handleGutterMouseMove\<close> has no such guard, so
  \<^verbatim>\<open>_createBreakpointMarkerAtLine\<close> marks the buffer position and then fails
  \<^verbatim>\<open>invariant(this._gutter != null)\<close>. In \<open>editorGutterGone\<close> the pointer rested on row 4
  when the gutter was destroyed; a move to row 6 destroys the shadow marker 3, creates
  marker 4, which nothing decorates or refers to, and throws.
\<close>

theorem hover_without_gutter_throws:
  "gutter editorGutterGone = None \<and>
   lastShadowBreakpointMarker editorGutterGone = Some 3 \<and>
   markerRow editorGutterGone 3 = 4 \<and>
   getCurrentMouseEventLine (pointerAt 130) editorGutterGone = 6 \<and>
   fst (handleGutterMouseMove (pointerAt 130) editorGutterGone) = Inl InvariantViolation \<and>
   newEffects editorGutterGone (snd (handleGutterMouseMove (pointerAt 130) editorGutterGone)) =
     [MarkerDestroy 3, MarkBufferPosition 4 6] \<and>
   length (heap (snd (handleGutterMouseMove (pointerAt 130) editorGutterGone))) =
     Suc (length (heap editorGutterGone)) \<and>
   update editorGutterGone = (Inr (), editorGutterGone)"
  by (simp add: editorGutterGone_def handleGutterDestroyed_def editorHovering_eval
      example_defs method_defs hover_defs newEffects_def)

end
